theory Spec2Isabelle
  imports Complex_Main "HOL-Library.Word"
begin

section \<open>Exceptions\<close>

text \<open>
  A Python exception is a value: its class and its message. \<open>str(e)\<close> is the message.
  Only subclasses of \<open>Exception\<close> are modelled (these are what \<open>except Exception\<close>
  catches); \<open>KeyboardInterrupt\<close> and \<open>SystemExit\<close> are outside the model.
\<close>

datatype exn_class =
  FileNotFoundError | ValueError | IndexError | TypeError | UnboundLocalError | OtherException

datatype exn = Exn exn_class string

fun str_exn :: "exn \<Rightarrow> string" where
  "str_exn (Exn c msg) = msg"

fun class_of :: "exn \<Rightarrow> exn_class" where
  "class_of (Exn c msg) = c"

section \<open>Arrays\<close>

text \<open>
  A numpy array: its \<open>shape\<close> tuple and its elements, read by a full index (one
  coordinate per axis). The element type \<open>'a\<close> stands for float64 in the volumes and is
  \<open>8 word\<close> after the cast to \<open>uint8\<close>. Only the elements at indices inside the shape
  are part of the array.
\<close>

record 'a ndarray =
  shape :: "nat list"
  elem :: "nat list \<Rightarrow> 'a"

text \<open>All indices of a shape, in row-major (C) order.\<close>

fun indices :: "nat list \<Rightarrow> nat list list" where
  "indices [] = [ [] ]"
| "indices (n # ns) = concat (map (\<lambda>i. map ((#) i) (indices ns)) [0..<n])"

definition flat :: "'a ndarray \<Rightarrow> 'a list" where
  "flat m = map (elem m) (indices (shape m))"

text \<open>\<open>numpy.array_equal\<close>: same shape, same element at every index of the shape.\<close>

definition array_equal :: "'a ndarray \<Rightarrow> 'a ndarray \<Rightarrow> bool" where
  "array_equal a b \<longleftrightarrow>
     shape a = shape b \<and> (\<forall>idx \<in> set (indices (shape a)). elem a idx = elem b idx)"

subsection \<open>Basic indexing\<close>

text \<open>
  \<open>a[k0, k1, ...]\<close> where each \<open>k\<close> is \<open>:\<close> (\<open>None\<close> here) or a non-negative
  integer (\<open>Some i\<close>). More selectors than axes, or an integer outside its axis, raise
  \<open>IndexError\<close>; an integer selector removes its axis.
\<close>

fun sel_ok :: "nat option list \<Rightarrow> nat list \<Rightarrow> bool" where
  "sel_ok [] sh = True"
| "sel_ok (None # ks) (n # sh) = sel_ok ks sh"
| "sel_ok (Some i # ks) (n # sh) = (i < n \<and> sel_ok ks sh)"
| "sel_ok (k # ks) [] = False"

fun sel_shape :: "nat option list \<Rightarrow> nat list \<Rightarrow> nat list" where
  "sel_shape [] sh = sh"
| "sel_shape (None # ks) (n # sh) = n # sel_shape ks sh"
| "sel_shape (Some i # ks) (n # sh) = sel_shape ks sh"
| "sel_shape (k # ks) [] = []"

fun sel_index :: "nat option list \<Rightarrow> nat list \<Rightarrow> nat list" where
  "sel_index [] idx = idx"
| "sel_index (Some i # ks) idx = i # sel_index ks idx"
| "sel_index (None # ks) (j # idx) = j # sel_index ks idx"
| "sel_index (None # ks) [] = []"

definition view :: "'a ndarray \<Rightarrow> nat option list \<Rightarrow> 'a ndarray" where
  "view a ks = \<lparr>shape = sel_shape ks (shape a), elem = (\<lambda>idx. elem a (sel_index ks idx))\<rparr>"

definition getitem :: "'a ndarray \<Rightarrow> nat option list \<Rightarrow> exn + 'a ndarray" where
  "getitem a ks =
     (if length (shape a) < length ks then
        Inl (Exn IndexError ''too many indices for array'')
      else if \<not> sel_ok ks (shape a) then
        Inl (Exn IndexError ''index out of bounds for axis'')
      else Inr (view a ks))"

subsection \<open>\<open>numpy.rot90\<close>\<close>

text \<open>
  \<open>numpy.flip(m, axis)\<close> reverses one axis; \<open>numpy.transpose(m, axes_list)\<close> with
  the first two axes exchanged swaps the first two coordinates.
\<close>

definition flip :: "'a ndarray \<Rightarrow> nat \<Rightarrow> 'a ndarray" where
  "flip m ax = m\<lparr>elem := (\<lambda>idx. elem m (idx[ax := shape m ! ax - 1 - idx ! ax]))\<rparr>"

fun swap01 :: "'b list \<Rightarrow> 'b list" where
  "swap01 (a # b # r) = b # a # r"
| "swap01 xs = xs"

definition transpose01 :: "'a ndarray \<Rightarrow> 'a ndarray" where
  "transpose01 m = \<lparr>shape = swap01 (shape m), elem = (\<lambda>idx. elem m (swap01 idx))\<rparr>"

text \<open>
  \<open>numpy.rot90(m, k)\<close> with the default \<open>axes=(0, 1)\<close>: the axes must exist, \<open>k\<close> is
  reduced modulo 4 (Python's \<open>%\<close>: the result is in 0..3 also for negative \<open>k\<close>), and
  each of the four cases is computed as numpy does:
  \<^verbatim>\<open>
    k %= 4
    if k == 0: return m[:]
    if k == 2: return flip(flip(m, axes[0]), axes[1])
    if k == 1: return transpose(flip(m, axes[1]), axes_list)
    else:      return flip(transpose(m, axes_list), axes[1])
  \<close>
\<close>

definition rot90 :: "'a ndarray \<Rightarrow> int \<Rightarrow> exn + 'a ndarray" where
  "rot90 m k =
     (if length (shape m) = 1 then Inl (Exn ValueError ''Axes must be different.'')
      else if length (shape m) = 0 then
        Inl (Exn ValueError ''Axes=(0, 1) out of range for array of ndim=0.'')
      else
        (let k' = k mod 4 in
         if k' = 0 then Inr m
         else if k' = 2 then Inr (flip (flip m 0) 1)
         else if k' = 1 then Inr (transpose01 (flip m 1))
         else Inr (flip (transpose01 m) 1)))"

section \<open>The single-slice tool (\<open>medrax/tools/nifti.py\<close>)\<close>

text \<open>
  \<open>NiftiProcessorTool._rotate_image\<close>. The schema declares \<open>rotation_angle\<close> as
  \<open>Optional[int]\<close>: \<open>None // 90\<close> raises \<open>TypeError\<close>. Python's \<open>//\<close> on integers is
  floor division, as \<open>div\<close> on \<open>int\<close>.
\<close>

definition rotate_image :: "'a ndarray \<Rightarrow> int option \<Rightarrow> exn + 'a ndarray" where
  "rotate_image img_array rotation_angle =
     (case rotation_angle of
        None \<Rightarrow> Inl (Exn TypeError ''unsupported operand type(s) for //: NoneType and int'')
      | Some a \<Rightarrow> (let rotations = a div 90 in rot90 img_array rotations))"

subsection \<open>The loaded image, float arithmetic, metadata values\<close>

text \<open>
  What \<open>nibabel.load\<close> returns, as far as the tools read it: the result of
  \<open>get_fdata()\<close> (decoding is lazy, so this call can raise as well),
  \<open>affine.tolist()\<close> and \<open>dict(header)\<close>. The header type \<open>'h\<close> is opaque.
\<close>

record ('a, 'h) nifti_image =
  get_fdata :: "exn + 'a ndarray"
  affine_tolist :: "'a list list"
  header_dict :: "'h"

text \<open>
  float64 arithmetic is not modelled: the operations that the normalisation uses are
  parameters. numpy's element-wise operations and the cast never raise (division by zero
  and invalid values give inf and NaN with a warning); only the reductions \<open>min\<close> and
  \<open>max\<close> raise, on an array without elements.
\<close>

record 'a float_ops =
  fsub :: "'a \<Rightarrow> 'a \<Rightarrow> 'a"
  fdiv :: "'a \<Rightarrow> 'a \<Rightarrow> 'a"
  fmul :: "'a \<Rightarrow> 'a \<Rightarrow> 'a"
  f255 :: "'a"
  amin :: "'a list \<Rightarrow> 'a"
  amax :: "'a list \<Rightarrow> 'a"
  to_uint8 :: "'a \<Rightarrow> 8 word"

text \<open>The values stored in the metadata dictionary.\<close>

datatype ('a, 'h) pyval =
  PInt int
| PTuple "nat list"
| PAffine "'a list list"
| PHeader 'h
| PStr string
| PAngle "int option"

type_synonym ('a, 'h) metadata = "string \<rightharpoonup> ('a, 'h) pyval"

text \<open>
  The environment of the tool: the file loader, the float operations, the 32 hex digits
  of \<open>uuid.uuid4().hex\<close>, pathlib's \<open>str(dir / name)\<close>, and
  \<open>Image.fromarray(img).save(path)\<close> (\<open>Some e\<close> when it raises).
\<close>

record ('a, 'h) tool_env =
  nib_load :: "string \<Rightarrow> exn + ('a, 'h) nifti_image"
  ops :: "'a float_ops"
  uuid4_hex :: "string"
  path_div :: "string \<Rightarrow> string \<Rightarrow> string"
  image_save :: "string \<Rightarrow> (8 word) ndarray \<Rightarrow> exn option"

record tool =
  temp_dir :: "string"

subsection \<open>\<open>_process_nifti\<close>\<close>

text \<open>Lines 70-75: the plane that the tool extracts.\<close>

definition first_slice :: "'a ndarray \<Rightarrow> exn + 'a ndarray" where
  "first_slice img_array =
     (if length (shape img_array) = 4 then getitem img_array [None, None, Some 0, Some 0]
      else getitem img_array [None, None, Some 0])"

text \<open>
  Lines 96-98:
  \<open>((p - p.min()) / (p.max() - p.min()) * 255).astype(np.uint8)\<close>. \<open>p.min()\<close> is
  evaluated first and raises \<open>ValueError\<close> on an array of size 0.
\<close>

definition normalize :: "'a float_ops \<Rightarrow> 'a ndarray \<Rightarrow> exn + (8 word) ndarray" where
  "normalize fo p =
     (if prod_list (shape p) = 0 then
        Inl (Exn ValueError
          ''zero-size array to reduction operation minimum which has no identity'')
      else
        (let lo = amin fo (flat p); hi = amax fo (flat p) in
         Inr \<lparr>shape = shape p,
              elem = (\<lambda>idx. to_uint8 fo
                (fmul fo (fdiv fo (fsub fo (elem p idx) lo) (fsub fo hi lo)) (f255 fo)))\<rparr>))"

definition process_nifti ::
  "('a, 'h) tool_env \<Rightarrow> string \<Rightarrow> int option \<Rightarrow> exn + ((8 word) ndarray \<times> ('a, 'h) metadata)"
where
  "process_nifti env nifti_path rotation_angle =
     (case nib_load env nifti_path of
        Inl e \<Rightarrow> Inl e
      | Inr nii_img \<Rightarrow>
     (case get_fdata nii_img of
        Inl e \<Rightarrow> Inl e
      | Inr img_array \<Rightarrow>
     (let metadata =
        [''dimensions'' \<mapsto> PInt (int (length (shape img_array))),
         ''shape'' \<mapsto> PTuple (shape img_array),
         ''affine'' \<mapsto> PAffine (affine_tolist nii_img),
         ''header_info'' \<mapsto> PHeader (header_dict nii_img)]
      in
     (case first_slice img_array of
        Inl e \<Rightarrow> Inl e
      | Inr slice_data \<Rightarrow>
     (case rotate_image slice_data rotation_angle of
        Inl e \<Rightarrow> Inl e
      | Inr rotated \<Rightarrow>
     (case normalize (ops env) rotated of
        Inl e \<Rightarrow> Inl e
      | Inr processed_slice \<Rightarrow> Inr (processed_slice, metadata)))))))"

subsection \<open>\<open>_run\<close>\<close>

text \<open>The body of the \<open>try\<close> block: \<open>Inl e\<close> when a step raises \<open>e\<close>.\<close>

definition run_try ::
  "('a, 'h) tool_env \<Rightarrow> tool \<Rightarrow> string \<Rightarrow> int option \<Rightarrow>
     exn + ((string \<rightharpoonup> string) \<times> ('a, 'h) metadata)"
where
  "run_try env self nifti_path rotation_angle =
     (case process_nifti env nifti_path rotation_angle of
        Inl e \<Rightarrow> Inl e
      | Inr (img_array, metadata) \<Rightarrow>
     (let output_path =
        path_div env (temp_dir self) (''processed_nifti_'' @ take 8 (uuid4_hex env) @ ''.png'')
      in
     (case image_save env output_path img_array of
        Some e \<Rightarrow> Inl e
      | None \<Rightarrow>
          Inr ([''image_path'' \<mapsto> output_path],
               metadata ++
                 [''original_path'' \<mapsto> PStr nifti_path,
                  ''output_path'' \<mapsto> PStr output_path,
                  ''rotation_angle'' \<mapsto> PAngle rotation_angle,
                  ''analysis_status'' \<mapsto> PStr ''completed'']))))"

text \<open>The \<open>except Exception as e\<close> handler turns the exception into the returned pair.\<close>

definition run ::
  "('a, 'h) tool_env \<Rightarrow> tool \<Rightarrow> string \<Rightarrow> int option \<Rightarrow>
     (string \<rightharpoonup> string) \<times> ('a, 'h) metadata"
where
  "run env self nifti_path rotation_angle =
     (case run_try env self nifti_path rotation_angle of
        Inr result \<Rightarrow> result
      | Inl e \<Rightarrow>
          ([''error'' \<mapsto> str_exn e],
           [''nifti_path'' \<mapsto> PStr nifti_path,
            ''analysis_status'' \<mapsto> PStr ''failed'',
            ''error_details'' \<mapsto> PStr (str_exn e)]))"

section \<open>The batch converter (\<open>medrax/tools/nifti2image.py\<close>)\<close>

subsection \<open>Strings and paths\<close>

text \<open>\<open>s.endswith(suf)\<close>.\<close>

definition endswith :: "string \<Rightarrow> string \<Rightarrow> bool" where
  "endswith s suf \<longleftrightarrow> length suf \<le> length s \<and> drop (length s - length suf) s = suf"

text \<open>
  \<open>os.path\<close> on POSIX: \<open>basename(p)\<close> is what follows the last slash, \<open>dirname(p)\<close>
  what precedes it (without trailing slashes, unless it consists of slashes only), and
  \<open>join(a, b)\<close> is \<open>b\<close> when \<open>b\<close> is absolute, else \<open>a\<close> and \<open>b\<close> with one slash
  between them unless \<open>a\<close> is empty or ends with one.
\<close>

definition basename :: "string \<Rightarrow> string" where
  "basename p = rev (takeWhile (\<lambda>c. c \<noteq> CHR ''/'') (rev p))"

definition dirname :: "string \<Rightarrow> string" where
  "dirname p =
     (let head = rev (dropWhile (\<lambda>c. c \<noteq> CHR ''/'') (rev p)) in
      if head \<noteq> [] \<and> head \<noteq> replicate (length head) (CHR ''/'')
      then rev (dropWhile (\<lambda>c. c = CHR ''/'') (rev head))
      else head)"

definition join :: "string \<Rightarrow> string \<Rightarrow> string" where
  "join a b =
     (if b \<noteq> [] \<and> hd b = CHR ''/'' then b
      else if a = [] \<or> last a = CHR ''/'' then a @ b
      else a @ CHR ''/'' # b)"

text \<open>\<open>fname.split('.', 1)[0]\<close>: the part before the first dot.\<close>

definition split_dot_first :: "string \<Rightarrow> string" where
  "split_dot_first fname = takeWhile (\<lambda>c. c \<noteq> CHR ''.'') fname"

text \<open>\<open>str(n)\<close> of a non-negative integer, and \<open>s.zfill(w)\<close> of a string without sign.\<close>

definition digit_char :: "nat \<Rightarrow> char" where
  "digit_char d = char_of (48 + d)"

function str_nat :: "nat \<Rightarrow> string" where
  "str_nat n = (if n < 10 then [digit_char n] else str_nat (n div 10) @ [digit_char (n mod 10)])"
  by pat_completeness auto
termination
  by (relation "measure (\<lambda>n. n)") auto

declare str_nat.simps [simp del]

definition zfill :: "nat \<Rightarrow> string \<Rightarrow> string" where
  "zfill w s = replicate (w - length s) (CHR ''0'') @ s"

subsection \<open>Environment and effects\<close>

text \<open>
  The calls that reach the file system, in the order in which they are made:
  \<open>os.makedirs(d, exist_ok=True)\<close>, \<open>nibabel.load(p)\<close> and
  \<open>matplotlib.image.imsave(name, data, cmap='gray')\<close>. Of the lines printed, only the
  last one, which reports \<open>slice_counter\<close>, is recorded.
\<close>

datatype 'a event =
  Makedirs string
| Load string
| Imsave string "'a ndarray"
| Summary nat

record ('a, 'h) batch_env =
  path_exists :: "string \<Rightarrow> bool"
  abspath :: "string \<Rightarrow> string"
  makedirs :: "string \<Rightarrow> exn option"
  nibabel_load :: "string \<Rightarrow> exn + ('a, 'h) nifti_image"
  imsave :: "string \<Rightarrow> 'a ndarray \<Rightarrow> exn option"

text \<open>The locals that the loops update, and the calls made so far.\<close>

record 'a loop_state =
  data :: "'a ndarray option"
  slice_counter :: nat
  log :: "'a event list"

subsection \<open>\<open>convert_nii_to_png\<close>\<close>

definition and_then :: "exn + 'b \<Rightarrow> ('b \<Rightarrow> exn + 'c) \<Rightarrow> exn + 'c" where
  "and_then r f = (case r of Inl e \<Rightarrow> Inl e | Inr x \<Rightarrow> f x)"

text \<open>
  The \<open>if\<close>/\<open>elif\<close>/\<open>elif\<close> chain on \<open>rotation_angle\<close> (lines 73-78 and 94-99). It
  has no \<open>else\<close>: for another angle \<open>data\<close> keeps the value it had, which is none.
\<close>

definition assign_data ::
  "int \<Rightarrow> 'a ndarray \<Rightarrow> nat option list \<Rightarrow> 'a ndarray option \<Rightarrow> exn + 'a ndarray option"
where
  "assign_data rotation_angle image_array ks old =
     (if rotation_angle = 90 then
        and_then (getitem image_array ks) (\<lambda>p.
        and_then (rot90 p 1) (\<lambda>d. Inr (Some d)))
      else if rotation_angle = 180 then
        and_then (getitem image_array ks) (\<lambda>p.
        and_then (rot90 p 1) (\<lambda>p1.
        and_then (rot90 p1 1) (\<lambda>d. Inr (Some d))))
      else if rotation_angle = 270 then
        and_then (getitem image_array ks) (\<lambda>p.
        and_then (rot90 p 1) (\<lambda>p1.
        and_then (rot90 p1 1) (\<lambda>p2.
        and_then (rot90 p2 1) (\<lambda>d. Inr (Some d)))))
      else Inr old)"

text \<open>
  One pass through a loop body: assign \<open>data\<close>, build the name, save, count. Reading
  \<open>data\<close> when it was never assigned raises \<open>UnboundLocalError\<close>.
\<close>

definition plane_step ::
  "('a, 'h) batch_env \<Rightarrow> int \<Rightarrow> 'a ndarray \<Rightarrow> nat option list \<Rightarrow> string \<Rightarrow>
     'a loop_state \<Rightarrow> 'a loop_state \<times> exn option"
where
  "plane_step env rotation_angle image_array ks image_name st =
     (case assign_data rotation_angle image_array ks (data st) of
        Inl e \<Rightarrow> (st, Some e)
      | Inr d \<Rightarrow>
     (case d of
        None \<Rightarrow>
          (st, Some (Exn UnboundLocalError
             ''cannot access local variable data where it is not associated with a value''))
      | Some img \<Rightarrow>
     (let st1 = st\<lparr>data := d, log := log st @ [Imsave image_name img]\<rparr> in
      case imsave env image_name img of
        Some e \<Rightarrow> (st1, Some e)
      | None \<Rightarrow> (st1\<lparr>slice_counter := slice_counter st1 + 1\<rparr>, None))))"

definition name3 :: "string \<Rightarrow> string \<Rightarrow> nat \<Rightarrow> string" where
  "name3 output_dir fname_noext current_slice =
     join output_dir (fname_noext @ ''_z'' @ zfill 3 (str_nat (current_slice + 1)) @ ''.png'')"

definition name4 :: "string \<Rightarrow> string \<Rightarrow> nat \<Rightarrow> nat \<Rightarrow> string" where
  "name4 output_dir fname_noext current_volume current_slice =
     join output_dir
       (fname_noext @ ''_vol'' @ str_nat (current_volume + 1) @ ''_z'' @
        zfill 3 (str_nat (current_slice + 1)) @ ''.png'')"

text \<open>Lines 71-84: the loop over the slices of a 3-D image.\<close>

fun slices3 ::
  "('a, 'h) batch_env \<Rightarrow> string \<Rightarrow> string \<Rightarrow> int \<Rightarrow> 'a ndarray \<Rightarrow> nat list \<Rightarrow>
     'a loop_state \<Rightarrow> 'a loop_state \<times> exn option"
where
  "slices3 env output_dir fname_noext rotation_angle image_array [] st = (st, None)"
| "slices3 env output_dir fname_noext rotation_angle image_array (current_slice # rest) st =
     (case plane_step env rotation_angle image_array [None, None, Some current_slice]
             (name3 output_dir fname_noext current_slice) st of
        (st', Some e) \<Rightarrow> (st', Some e)
      | (st', None) \<Rightarrow> slices3 env output_dir fname_noext rotation_angle image_array rest st')"

text \<open>Lines 93-105: the inner loop over the slices of one volume of a 4-D image.\<close>

fun slices4 ::
  "('a, 'h) batch_env \<Rightarrow> string \<Rightarrow> string \<Rightarrow> int \<Rightarrow> 'a ndarray \<Rightarrow> nat \<Rightarrow> nat list \<Rightarrow>
     'a loop_state \<Rightarrow> 'a loop_state \<times> exn option"
where
  "slices4 env output_dir fname_noext rotation_angle image_array current_volume [] st =
     (st, None)"
| "slices4 env output_dir fname_noext rotation_angle image_array current_volume
     (current_slice # rest) st =
     (case plane_step env rotation_angle image_array
             [None, None, Some current_slice, Some current_volume]
             (name4 output_dir fname_noext current_volume current_slice) st of
        (st', Some e) \<Rightarrow> (st', Some e)
      | (st', None) \<Rightarrow>
          slices4 env output_dir fname_noext rotation_angle image_array current_volume rest st')"

text \<open>Lines 91-106: the outer loop over the volumes.\<close>

fun volumes4 ::
  "('a, 'h) batch_env \<Rightarrow> string \<Rightarrow> string \<Rightarrow> int \<Rightarrow> 'a ndarray \<Rightarrow> nat \<Rightarrow> nat list \<Rightarrow>
     'a loop_state \<Rightarrow> 'a loop_state \<times> exn option"
where
  "volumes4 env output_dir fname_noext rotation_angle image_array total_slices [] st =
     (st, None)"
| "volumes4 env output_dir fname_noext rotation_angle image_array total_slices
     (current_volume # rest) st =
     (case slices4 env output_dir fname_noext rotation_angle image_array current_volume
             [0..<total_slices] st of
        (st', Some e) \<Rightarrow> (st', Some e)
      | (st', None) \<Rightarrow>
          volumes4 env output_dir fname_noext rotation_angle image_array total_slices rest st')"

text \<open>Lines 42-53: the name of the output directory.\<close>

definition output_dir_of :: "('a, 'h) batch_env \<Rightarrow> string \<Rightarrow> string option \<Rightarrow> string" where
  "output_dir_of env file_path output_dir_path =
     (let fname = basename file_path;
          fname_noext = split_dot_first fname
      in case output_dir_path of
           None \<Rightarrow> join (dirname (abspath env file_path)) fname_noext
         | Some odp \<Rightarrow> join (abspath env odp) fname_noext)"

text \<open>
  The function returns the calls it made and either the exception it raised or the
  output directory.
\<close>

definition convert_nii_to_png ::
  "('a, 'h) batch_env \<Rightarrow> string \<Rightarrow> string option \<Rightarrow> int \<Rightarrow> 'a event list \<times> (exn + string)"
where
  "convert_nii_to_png env file_path output_dir_path rotation_angle =
     (if \<not> path_exists env file_path then
        ([], Inl (Exn FileNotFoundError (''Input file not found: '' @ file_path)))
      else if \<not> (endswith file_path ''.nii'' \<or> endswith file_path ''.nii.gz'') then
        ([], Inl (Exn ValueError
           (''Input file must be a NIfTI file (.nii or .nii.gz): '' @ file_path)))
      else
     (let fname_noext = split_dot_first (basename file_path);
          output_dir = output_dir_of env file_path output_dir_path
      in
     (case makedirs env output_dir of
        Some e \<Rightarrow> ([Makedirs output_dir], Inl e)
      | None \<Rightarrow>
     (case nibabel_load env file_path of
        Inl e \<Rightarrow> ([Makedirs output_dir, Load file_path], Inl e)
      | Inr image_nib \<Rightarrow>
     (case get_fdata image_nib of
        Inl e \<Rightarrow> ([Makedirs output_dir, Load file_path], Inl e)
      | Inr image_array \<Rightarrow>
     (let st0 = \<lparr>data = None, slice_counter = 0,
                 log = [Makedirs output_dir, Load file_path]\<rparr>;
          (st, err) =
            (if length (shape image_array) = 3 then
               slices3 env output_dir fname_noext rotation_angle image_array
                 [0..<shape image_array ! 2] st0
             else if length (shape image_array) = 4 then
               volumes4 env output_dir fname_noext rotation_angle image_array
                 (shape image_array ! 2) [0..<shape image_array ! 3] st0
             else (st0, None))
      in case err of
           Some e \<Rightarrow> (log st, Inl e)
         | None \<Rightarrow> (log st @ [Summary (slice_counter st)], Inr output_dir)))))))"

section \<open>Notions used in the statements\<close>

text \<open>
  One counter-clockwise quarter turn of the first two axes: what \<open>numpy.rot90(m)\<close>
  returns for an array with at least two axes.
\<close>

definition quarter_turn :: "'a ndarray \<Rightarrow> 'a ndarray" where
  "quarter_turn m = transpose01 (flip m 1)"

text \<open>The paths passed to \<open>imsave\<close>, in the order of the calls.\<close>

definition written :: "'a event list \<Rightarrow> string list" where
  "written evs = concat (map (\<lambda>e. case e of Imsave n d \<Rightarrow> [n] | _ \<Rightarrow> []) evs)"

text \<open>Reading a decimal string back, used to show that \<open>str\<close> and \<open>zfill\<close> lose nothing.\<close>

definition digit_val :: "char \<Rightarrow> nat" where
  "digit_val c = of_char c - 48"

definition nat_of_str :: "string \<Rightarrow> nat" where
  "nat_of_str s = foldl (\<lambda>acc c. 10 * acc + digit_val c) 0 s"

section \<open>A model of float64 for concrete planes\<close>

text \<open>
  The special values of IEEE-754 binary64. A finite value is a rational and arithmetic on
  finite values is exact: rounding, overflow and the sign of zero are not modelled. The
  rules for the infinities and NaN are those of the standard. \<open>numpy.min\<close> and
  \<open>numpy.max\<close> return NaN when the array holds one. The cast to \<open>uint8\<close> truncates a
  finite value toward zero; what it gives for NaN and the infinities depends on the
  platform and is the parameter \<open>nan_cast\<close>.
\<close>

datatype f64 = Fin rat | PInf | NInf | NaN

fun f64_sub :: "f64 \<Rightarrow> f64 \<Rightarrow> f64" where
  "f64_sub NaN y = NaN"
| "f64_sub x NaN = NaN"
| "f64_sub PInf PInf = NaN"
| "f64_sub NInf NInf = NaN"
| "f64_sub PInf y = PInf"
| "f64_sub NInf y = NInf"
| "f64_sub (Fin a) PInf = NInf"
| "f64_sub (Fin a) NInf = PInf"
| "f64_sub (Fin a) (Fin b) = Fin (a - b)"

fun f64_div :: "f64 \<Rightarrow> f64 \<Rightarrow> f64" where
  "f64_div NaN y = NaN"
| "f64_div x NaN = NaN"
| "f64_div PInf (Fin b) = (if 0 \<le> b then PInf else NInf)"
| "f64_div NInf (Fin b) = (if 0 \<le> b then NInf else PInf)"
| "f64_div PInf y = NaN"
| "f64_div NInf y = NaN"
| "f64_div (Fin a) PInf = Fin 0"
| "f64_div (Fin a) NInf = Fin 0"
| "f64_div (Fin a) (Fin b) =
     (if b = 0 then (if a = 0 then NaN else if 0 < a then PInf else NInf) else Fin (a / b))"

fun f64_mul :: "f64 \<Rightarrow> f64 \<Rightarrow> f64" where
  "f64_mul NaN y = NaN"
| "f64_mul x NaN = NaN"
| "f64_mul (Fin a) (Fin b) = Fin (a * b)"
| "f64_mul (Fin a) PInf = (if a = 0 then NaN else if 0 < a then PInf else NInf)"
| "f64_mul (Fin a) NInf = (if a = 0 then NaN else if 0 < a then NInf else PInf)"
| "f64_mul PInf (Fin b) = (if b = 0 then NaN else if 0 < b then PInf else NInf)"
| "f64_mul NInf (Fin b) = (if b = 0 then NaN else if 0 < b then NInf else PInf)"
| "f64_mul PInf PInf = PInf"
| "f64_mul NInf NInf = PInf"
| "f64_mul PInf NInf = NInf"
| "f64_mul NInf PInf = NInf"

fun f64_le :: "f64 \<Rightarrow> f64 \<Rightarrow> bool" where
  "f64_le NaN y = False"
| "f64_le x NaN = False"
| "f64_le NInf y = True"
| "f64_le x PInf = True"
| "f64_le PInf y = False"
| "f64_le x NInf = False"
| "f64_le (Fin a) (Fin b) = (a \<le> b)"

definition f64_min :: "f64 list \<Rightarrow> f64" where
  "f64_min xs = (if NaN \<in> set xs then NaN
                 else fold (\<lambda>x m. if f64_le x m then x else m) (tl xs) (hd xs))"

definition f64_max :: "f64 list \<Rightarrow> f64" where
  "f64_max xs = (if NaN \<in> set xs then NaN
                 else fold (\<lambda>x m. if f64_le m x then x else m) (tl xs) (hd xs))"

fun f64_to_uint8 :: "8 word \<Rightarrow> f64 \<Rightarrow> 8 word" where
  "f64_to_uint8 nan_cast (Fin a) = word_of_int (if 0 \<le> a then \<lfloor>a\<rfloor> else \<lceil>a\<rceil>)"
| "f64_to_uint8 nan_cast x = nan_cast"

definition f64_ops :: "8 word \<Rightarrow> f64 float_ops" where
  "f64_ops nan_cast =
     \<lparr>fsub = f64_sub, fdiv = f64_div, fmul = f64_mul, f255 = Fin 255,
      amin = f64_min, amax = f64_max, to_uint8 = f64_to_uint8 nan_cast\<rparr>"

fun fin_val :: "f64 \<Rightarrow> rat" where
  "fin_val (Fin a) = a"
| "fin_val x = 0"

section \<open>Concrete inputs\<close>

text \<open>A 2 by 3 plane with pairwise different elements.\<close>

definition plane23 :: "int ndarray" where
  "plane23 = \<lparr>shape = [2, 3], elem = (\<lambda>idx. int (idx ! 0 * 3 + idx ! 1))\<rparr>"

text \<open>
  A stand-in for the float operations (on integers), a constant 3-D volume of shape
  (4, 4, 2), and a tool environment in which only \<open>scan.nii\<close> can be loaded.
\<close>

definition ops0 :: "int float_ops" where
  "ops0 = \<lparr>fsub = (\<lambda>x y. x - y), fdiv = (\<lambda>x y. x div y), fmul = (\<lambda>x y. x * y), f255 = 255,
           amin = (\<lambda>xs. fold min xs (hd xs)), amax = (\<lambda>xs. fold max xs (hd xs)),
           to_uint8 = (\<lambda>x. word_of_int x)\<rparr>"

definition vol0 :: "int ndarray" where
  "vol0 = \<lparr>shape = [4, 4, 2], elem = (\<lambda>idx. 7)\<rparr>"

definition img0 :: "(int, unit) nifti_image" where
  "img0 = \<lparr>get_fdata = Inr vol0, affine_tolist = [ [1, 0, 0, 0], [0, 1, 0, 0], [0, 0, 1, 0], [0, 0, 0, 1] ],
           header_dict = ()\<rparr>"

definition env0 :: "(int, unit) tool_env" where
  "env0 = \<lparr>nib_load = (\<lambda>p. if p = ''scan.nii'' then Inr img0
                           else Inl (Exn FileNotFoundError (''No such file or no access: '' @ p))),
           ops = ops0,
           uuid4_hex = ''0123456789abcdef0123456789abcdef'',
           path_div = (\<lambda>d n. d @ ''/'' @ n),
           image_save = (\<lambda>p img. None)\<rparr>"

definition tool0 :: tool where "tool0 = \<lparr>temp_dir = ''temp''\<rparr>"

text \<open>
  A 4-D and a 3-D volume, each with a second volume that agrees with it on the first
  plane only.
\<close>

definition vol4 :: "int ndarray" where
  "vol4 = \<lparr>shape = [2, 2, 2, 2],
           elem = (\<lambda>idx. int (idx ! 0 + 2 * (idx ! 1) + 4 * (idx ! 2) + 8 * (idx ! 3)))\<rparr>"

definition vol4' :: "int ndarray" where
  "vol4' = \<lparr>shape = [2, 2, 2, 2],
            elem = (\<lambda>idx. if idx ! 2 = 0 \<and> idx ! 3 = 0 then int (idx ! 0 + 2 * (idx ! 1)) else 99)\<rparr>"

definition vol3 :: "int ndarray" where
  "vol3 = \<lparr>shape = [2, 2, 3], elem = (\<lambda>idx. int (idx ! 0 + 2 * (idx ! 1) + 4 * (idx ! 2)))\<rparr>"

definition vol3' :: "int ndarray" where
  "vol3' = \<lparr>shape = [2, 2, 3],
            elem = (\<lambda>idx. if idx ! 2 = 0 then int (idx ! 0 + 2 * (idx ! 1)) else 99)\<rparr>"

text \<open>
  A file system for the batch converter: two loadable images, a text file, and a file
  with the right suffix that cannot be decoded.
\<close>

definition img3 :: "(int, unit) nifti_image" where
  "img3 = \<lparr>get_fdata = Inr vol3, affine_tolist = [ [1, 0, 0, 0], [0, 1, 0, 0], [0, 0, 1, 0], [0, 0, 0, 1] ],
           header_dict = ()\<rparr>"

definition img4 :: "(int, unit) nifti_image" where
  "img4 = \<lparr>get_fdata = Inr vol4, affine_tolist = [ [1, 0, 0, 0], [0, 1, 0, 0], [0, 0, 1, 0], [0, 0, 0, 1] ],
           header_dict = ()\<rparr>"

definition benv0 :: "(int, unit) batch_env" where
  "benv0 = \<lparr>path_exists = (\<lambda>p. p = ''/data/scan.nii'' \<or> p = ''/data/scan4.nii.gz'' \<or>
                               p = ''/data/notes.txt'' \<or> p = ''/data/bad.nii''),
            abspath = (\<lambda>p. p),
            makedirs = (\<lambda>d. None),
            nibabel_load = (\<lambda>p. if p = ''/data/scan.nii'' then Inr img3
                                else if p = ''/data/scan4.nii.gz'' then Inr img4
                                else Inl (Exn OtherException (''Cannot work out file type of '' @ p))),
            imsave = (\<lambda>n d. None)\<rparr>"

text \<open>
  The 1 by 2 plane with the values \<open>-inf\<close> and \<open>0.0\<close>, and a finite 2 by 2 plane with the values 0, 5, 5, 10.
\<close>

definition plane_inf :: "f64 ndarray" where
  "plane_inf = \<lparr>shape = [1, 2], elem = (\<lambda>idx. if idx = [0, 0] then NInf else Fin 0)\<rparr>"


section \<open>Arrays and rotation: auxiliary facts\<close>

lemma in_indices: "idx \<in> set (indices sh) \<longleftrightarrow> list_all2 (<) idx sh"
proof (induction sh arbitrary: idx)
  case Nil
  then show ?case by simp
next
  case (Cons n ns)
  show ?case by (cases idx) (auto simp: Cons.IH image_iff)
qed

lemma shape_flip [simp]: "shape (flip m ax) = shape m"
  by (simp add: flip_def)

lemma shape_transpose01 [simp]: "shape (transpose01 m) = swap01 (shape m)"
  by (simp add: transpose01_def)

lemma length_swap01 [simp]: "length (swap01 xs) = length xs"
  by (induction xs rule: swap01.induct) auto

lemma swap01_swap01 [simp]: "swap01 (swap01 xs) = xs"
  by (induction xs rule: swap01.induct) auto

lemma rot90_quarter: "2 \<le> length (shape m) \<Longrightarrow> rot90 m 1 = Inr (transpose01 (flip m 1))"
  by (auto simp: rot90_def)

lemma rot90_total:
  "2 \<le> length (shape m) \<Longrightarrow>
   rot90 m k = Inr (if k mod 4 = 0 then m
                    else if k mod 4 = 2 then flip (flip m 0) 1
                    else if k mod 4 = 1 then transpose01 (flip m 1)
                    else flip (transpose01 m) 1)"
  by (auto simp: rot90_def Let_def)

lemma four_quarters:
  assumes "2 \<le> length (shape m)"
  shows "array_equal
           (transpose01 (flip (transpose01 (flip (transpose01 (flip (transpose01 (flip m 1)) 1)) 1)) 1)) m"
    (is "array_equal ?q m")
proof -
  obtain r c rest where sh: "shape m = r # c # rest"
    using assms by (cases "shape m"; cases "tl (shape m)") auto
  have shq: "shape ?q = shape m"
    by simp
  show ?thesis
    unfolding array_equal_def
  proof (intro conjI ballI)
    show "shape ?q = shape m" by (rule shq)
  next
    fix idx assume "idx \<in> set (indices (shape ?q))"
    then have "list_all2 (<) idx (shape ?q)"
      by (simp only: in_indices)
    then have "list_all2 (<) idx (r # c # rest)"
      by (simp only: shq sh)
    then obtain i j ir where idx: "idx = i # j # ir" and "i < r" "j < c"
      by (auto simp: list_all2_Cons2)
    then show "elem ?q idx = elem m idx"
      by (simp add: transpose01_def flip_def sh)
  qed
qed

section \<open>Claims about the orientation step\<close>

text \<open>
  Claim C5. For every 2-D plane, \<open>_rotate_image\<close> with an angle of 360 degrees returns
  the plane itself: \<open>360 // 90 = 4\<close> and \<open>rot90\<close> reduces 4 to 0 quarter turns. Four
  successive rotations by 90 degrees also give back an array equal to the plane, in shape
  and in every element.
\<close>

theorem rotate_360_identity:
  assumes "length (shape p) = 2"
  shows "rotate_image p (Some 360) = Inr p \<and>
         (\<exists>p1 p2 p3 p4.
            rotate_image p (Some 90) = Inr p1 \<and> rotate_image p1 (Some 90) = Inr p2 \<and>
            rotate_image p2 (Some 90) = Inr p3 \<and> rotate_image p3 (Some 90) = Inr p4 \<and>
            array_equal p4 p)"
proof
  show "rotate_image p (Some 360) = Inr p"
    using assms by (simp add: rotate_image_def rot90_def)
next
  have q: "rotate_image m (Some 90) = Inr (transpose01 (flip m 1))"
    if "2 \<le> length (shape m)" for m :: "'a ndarray"
    using that by (simp add: rotate_image_def rot90_quarter)
  let ?p1 = "transpose01 (flip p 1)"
  let ?p2 = "transpose01 (flip ?p1 1)"
  let ?p3 = "transpose01 (flip ?p2 1)"
  let ?p4 = "transpose01 (flip ?p3 1)"
  have "rotate_image p (Some 90) = Inr ?p1" using assms by (intro q) simp
  moreover have "rotate_image ?p1 (Some 90) = Inr ?p2" using assms by (intro q) simp
  moreover have "rotate_image ?p2 (Some 90) = Inr ?p3" using assms by (intro q) simp
  moreover have "rotate_image ?p3 (Some 90) = Inr ?p4" using assms by (intro q) simp
  moreover have "array_equal ?p4 p" using assms by (intro four_quarters) simp
  ultimately show "\<exists>p1 p2 p3 p4.
            rotate_image p (Some 90) = Inr p1 \<and> rotate_image p1 (Some 90) = Inr p2 \<and>
            rotate_image p2 (Some 90) = Inr p3 \<and> rotate_image p3 (Some 90) = Inr p4 \<and>
            array_equal p4 p"
    by blast
qed


theorem rotate_360_identity_witness:
  "length (shape plane23) = 2 \<and> rotate_image plane23 (Some 360) = Inr plane23"
  using rotate_360_identity [of plane23] by (simp add: plane23_def)

text \<open>
  Claim C7, as amended. \<open>_rotate_image\<close> rejects no angle: for every integer angle
  \<open>a\<close> and every array with at least two axes it returns the array turned by
  \<open>(a // 90) mod 4\<close> quarter turns. An angle such as 45 leaves the plane as it is.
\<close>

theorem rotate_image_accepts_every_angle:
  assumes "2 \<le> length (shape p)"
  shows "rotate_image p (Some a) =
           Inr (if (a div 90) mod 4 = 0 then p
                else if (a div 90) mod 4 = 2 then flip (flip p 0) 1
                else if (a div 90) mod 4 = 1 then transpose01 (flip p 1)
                else flip (transpose01 p) 1)"
  using assms by (simp add: rotate_image_def rot90_total)

theorem rotate_image_accepts_every_angle_witness:
  "2 \<le> length (shape plane23) \<and> rotate_image plane23 (Some 45) = Inr plane23"
  using rotate_image_accepts_every_angle [of plane23 45] by (simp add: plane23_def)

text \<open>
  The claim as stated fails: the angle 45 is outside \<open>{0, 90, 180, 270}\<close>, the
  rotation returns the plane without any error, and the single-slice driver completes.
\<close>

theorem unsupported_angle_counterexample:
  "rotate_image plane23 (Some 45) = Inr plane23 \<and>
   snd (run env0 tool0 ''scan.nii'' (Some 45)) ''analysis_status'' = Some (PStr ''completed'')"
  by (simp add: rotate_image_def rot90_def plane23_def run_def run_try_def process_nifti_def
      env0_def img0_def vol0_def first_slice_def getitem_def view_def normalize_def tool0_def Let_def)

section \<open>Slice selection\<close>

lemma length_indices: "length (indices sh) = prod_list sh"
proof (induction sh)
  case Nil
  then show ?case by simp
next
  case (Cons n ns)
  have "length (concat (map (\<lambda>i. map ((#) i) (indices ns)) [0..<n])) = n * length (indices ns)"
    by (induction n) simp_all
  with Cons show ?case by simp
qed

lemma in_indices2: "idx \<in> set (indices [r, c]) \<longleftrightarrow> (\<exists>i j. idx = [i, j] \<and> i < r \<and> j < c)"
  unfolding in_indices by (auto simp: list_all2_Cons2)

lemma in_indices3:
  "idx \<in> set (indices [r, c, d]) \<longleftrightarrow> (\<exists>i j k. idx = [i, j, k] \<and> i < r \<and> j < c \<and> k < d)"
  unfolding in_indices by (auto simp: list_all2_Cons2)

lemma in_indices4:
  "idx \<in> set (indices [r, c, d, w]) \<longleftrightarrow>
     (\<exists>i j k l. idx = [i, j, k, l] \<and> i < r \<and> j < c \<and> k < d \<and> l < w)"
  unfolding in_indices by (auto simp: list_all2_Cons2)

lemma first_slice_3d:
  assumes "shape v = [X, Y, Z]" "0 < Z"
  shows "first_slice v = Inr \<lparr>shape = [X, Y], elem = (\<lambda>idx. elem v (sel_index [None, None, Some 0] idx))\<rparr>"
  using assms by (simp add: first_slice_def getitem_def view_def)

lemma first_slice_4d:
  assumes "shape v = [X, Y, Z, W]" "0 < Z" "0 < W"
  shows "first_slice v =
           Inr \<lparr>shape = [X, Y], elem = (\<lambda>idx. elem v (sel_index [None, None, Some 0, Some 0] idx))\<rparr>"
  using assms by (simp add: first_slice_def getitem_def view_def)

text \<open>
  Claim C6. The plane that \<open>_process_nifti\<close> extracts from a 4-D volume with a
  non-empty third and fourth axis is the one at \<open>[:, :, 0, 0]\<close>, and from a 3-D volume
  with a non-empty third axis the one at \<open>[:, :, 0]\<close>. A volume of the same shape
  that agrees on this plane gives an equal plane, whatever its other elements are.
\<close>

theorem first_slice_selects_index_zero:
  "(shape v = [X, Y, Z, W] \<and> 0 < Z \<and> 0 < W \<longrightarrow>
      (\<exists>pl. first_slice v = Inr pl \<and> shape pl = [X, Y] \<and>
         (\<forall>i j. elem pl [i, j] = elem v [i, j, 0, 0]) \<and>
         (shape v' = shape v \<and> (\<forall>i<X. \<forall>j<Y. elem v' [i, j, 0, 0] = elem v [i, j, 0, 0]) \<longrightarrow>
            (\<exists>pl'. first_slice v' = Inr pl' \<and> array_equal pl pl')))) \<and>
   (shape v = [X, Y, Z] \<and> 0 < Z \<longrightarrow>
      (\<exists>pl. first_slice v = Inr pl \<and> shape pl = [X, Y] \<and>
         (\<forall>i j. elem pl [i, j] = elem v [i, j, 0]) \<and>
         (shape v' = shape v \<and> (\<forall>i<X. \<forall>j<Y. elem v' [i, j, 0] = elem v [i, j, 0]) \<longrightarrow>
            (\<exists>pl'. first_slice v' = Inr pl' \<and> array_equal pl pl'))))"
proof (intro conjI impI)
  assume a: "shape v = [X, Y, Z, W] \<and> 0 < Z \<and> 0 < W"
  let ?pl = "\<lparr>shape = [X, Y], elem = (\<lambda>idx. elem v (sel_index [None, None, Some 0, Some 0] idx))\<rparr>"
  have 1: "first_slice v = Inr ?pl" using a by (intro first_slice_4d) auto
  have 2: "\<exists>pl'. first_slice v' = Inr pl' \<and> array_equal ?pl pl'"
    if b: "shape v' = shape v \<and> (\<forall>i<X. \<forall>j<Y. elem v' [i, j, 0, 0] = elem v [i, j, 0, 0])"
  proof -
    let ?pl' = "\<lparr>shape = [X, Y], elem = (\<lambda>idx. elem v' (sel_index [None, None, Some 0, Some 0] idx))\<rparr>"
    have "first_slice v' = Inr ?pl'" using a b by (intro first_slice_4d) auto
    moreover have "array_equal ?pl ?pl'"
      using b by (auto simp: array_equal_def in_indices2 simp del: indices.simps)
    ultimately show ?thesis by blast
  qed
  show "\<exists>pl. first_slice v = Inr pl \<and> shape pl = [X, Y] \<and>
         (\<forall>i j. elem pl [i, j] = elem v [i, j, 0, 0]) \<and>
         (shape v' = shape v \<and> (\<forall>i<X. \<forall>j<Y. elem v' [i, j, 0, 0] = elem v [i, j, 0, 0]) \<longrightarrow>
            (\<exists>pl'. first_slice v' = Inr pl' \<and> array_equal pl pl'))"
    using 1 2 by (intro exI [of _ ?pl]) simp
next
  assume a: "shape v = [X, Y, Z] \<and> 0 < Z"
  let ?pl = "\<lparr>shape = [X, Y], elem = (\<lambda>idx. elem v (sel_index [None, None, Some 0] idx))\<rparr>"
  have 1: "first_slice v = Inr ?pl" using a by (intro first_slice_3d) auto
  have 2: "\<exists>pl'. first_slice v' = Inr pl' \<and> array_equal ?pl pl'"
    if b: "shape v' = shape v \<and> (\<forall>i<X. \<forall>j<Y. elem v' [i, j, 0] = elem v [i, j, 0])"
  proof -
    let ?pl' = "\<lparr>shape = [X, Y], elem = (\<lambda>idx. elem v' (sel_index [None, None, Some 0] idx))\<rparr>"
    have "first_slice v' = Inr ?pl'" using a b by (intro first_slice_3d) auto
    moreover have "array_equal ?pl ?pl'"
      using b by (auto simp: array_equal_def in_indices2 simp del: indices.simps)
    ultimately show ?thesis by blast
  qed
  show "\<exists>pl. first_slice v = Inr pl \<and> shape pl = [X, Y] \<and>
         (\<forall>i j. elem pl [i, j] = elem v [i, j, 0]) \<and>
         (shape v' = shape v \<and> (\<forall>i<X. \<forall>j<Y. elem v' [i, j, 0] = elem v [i, j, 0]) \<longrightarrow>
            (\<exists>pl'. first_slice v' = Inr pl' \<and> array_equal pl pl'))"
    using 1 2 by (intro exI [of _ ?pl]) simp
qed

theorem first_slice_selects_index_zero_witness:
  "(\<exists>pl pl'. first_slice vol4 = Inr pl \<and> first_slice vol4' = Inr pl' \<and> shape pl = [2, 2] \<and>
      elem pl [1, 1] = 3 \<and> array_equal pl pl') \<and>
   (\<exists>pl pl'. first_slice vol3 = Inr pl \<and> first_slice vol3' = Inr pl' \<and> shape pl = [2, 2] \<and>
      elem pl [1, 1] = 3 \<and> array_equal pl pl')"
proof
  have h4: "shape vol4 = [2, 2, 2, 2] \<and> (0::nat) < 2 \<and> (0::nat) < 2"
    by (simp add: vol4_def)
  have e4: "shape vol4' = shape vol4 \<and>
            (\<forall>i<2. \<forall>j<2. elem vol4' [i, j, 0, 0] = elem vol4 [i, j, 0, 0])"
    by (simp add: vol4_def vol4'_def)
  from first_slice_selects_index_zero [of vol4 2 2 2 2 vol4'] h4 e4
  obtain pl pl' where "first_slice vol4 = Inr pl" "shape pl = [2, 2]"
    "\<forall>i j. elem pl [i, j] = elem vol4 [i, j, 0, 0]" "first_slice vol4' = Inr pl'" "array_equal pl pl'"
    by blast
  moreover from this have "elem pl [1, 1] = 3" by (simp add: vol4_def)
  ultimately show "\<exists>pl pl'. first_slice vol4 = Inr pl \<and> first_slice vol4' = Inr pl' \<and> shape pl = [2, 2] \<and>
      elem pl [1, 1] = 3 \<and> array_equal pl pl'" by blast
next
  have h3: "shape vol3 = [2, 2, 3] \<and> (0::nat) < 3"
    by (simp add: vol3_def)
  have e3: "shape vol3' = shape vol3 \<and>
            (\<forall>i<2. \<forall>j<2. elem vol3' [i, j, 0] = elem vol3 [i, j, 0])"
    by (simp add: vol3_def vol3'_def)
  from first_slice_selects_index_zero [of vol3 2 2 3 _ vol3'] h3 e3
  obtain pl pl' where "first_slice vol3 = Inr pl" "shape pl = [2, 2]"
    "\<forall>i j. elem pl [i, j] = elem vol3 [i, j, 0]" "first_slice vol3' = Inr pl'" "array_equal pl pl'"
    by blast
  moreover from this have "elem pl [1, 1] = 3" by (simp add: vol3_def)
  ultimately show "\<exists>pl pl'. first_slice vol3 = Inr pl \<and> first_slice vol3' = Inr pl' \<and> shape pl = [2, 2] \<and>
      elem pl [1, 1] = 3 \<and> array_equal pl pl'" by blast
qed

section \<open>The single-slice driver\<close>

lemma process_nifti_metadata:
  assumes "process_nifti env p a = Inr (img, md)"
  shows "\<exists>nii v. nib_load env p = Inr nii \<and> get_fdata nii = Inr v \<and>
           md = [''dimensions'' \<mapsto> PInt (int (length (shape v))),
                 ''shape'' \<mapsto> PTuple (shape v),
                 ''affine'' \<mapsto> PAffine (affine_tolist nii),
                 ''header_info'' \<mapsto> PHeader (header_dict nii)]"
  using assms by (auto simp: process_nifti_def Let_def split: sum.splits)

lemma run_try_fails_iff:
  "run_try env self p a = Inl e \<longleftrightarrow>
     process_nifti env p a = Inl e \<or>
     (\<exists>img md. process_nifti env p a = Inr (img, md) \<and>
        image_save env
          (path_div env (temp_dir self) (''processed_nifti_'' @ take 8 (uuid4_hex env) @ ''.png''))
          img = Some e)"
  by (auto simp: run_try_def Let_def split: sum.splits option.splits prod.splits)

lemma process_nifti_fails_iff:
  "process_nifti env p a = Inl e \<longleftrightarrow>
     nib_load env p = Inl e \<or>
     (\<exists>nii. nib_load env p = Inr nii \<and>
        (get_fdata nii = Inl e \<or>
         (\<exists>v. get_fdata nii = Inr v \<and>
            (first_slice v = Inl e \<or>
             (\<exists>s. first_slice v = Inr s \<and>
                (rotate_image s a = Inl e \<or>
                 (\<exists>r. rotate_image s a = Inr r \<and> normalize (ops env) r = Inl e)))))))"
  by (auto simp: process_nifti_def Let_def split: sum.splits)



text \<open>
  Claim C9, as amended. On success the metadata has exactly the keys \<open>dimensions\<close>,
  \<open>shape\<close>, \<open>affine\<close>, \<open>header_info\<close>, \<open>original_path\<close>, \<open>output_path\<close>,
  \<open>rotation_angle\<close> and \<open>analysis_status\<close>, the last being \<open>completed\<close>. On failure it
  has exactly the keys \<open>nifti_path\<close>, \<open>analysis_status\<close> (\<open>failed\<close>) and
  \<open>error_details\<close> (the message).
\<close>

theorem metadata_keys:
  "(case run_try env self p a of
      Inr r \<Rightarrow>
        dom (snd (run env self p a)) =
          {''dimensions'', ''shape'', ''affine'', ''header_info'', ''original_path'',
           ''output_path'', ''rotation_angle'', ''analysis_status''} \<and>
        snd (run env self p a) ''analysis_status'' = Some (PStr ''completed'') \<and>
        snd (run env self p a) ''original_path'' = Some (PStr p)
    | Inl e \<Rightarrow>
        dom (snd (run env self p a)) = {''nifti_path'', ''analysis_status'', ''error_details''} \<and>
        snd (run env self p a) ''analysis_status'' = Some (PStr ''failed'') \<and>
        snd (run env self p a) ''error_details'' = Some (PStr (str_exn e)))"
proof (cases "run_try env self p a")
  case (Inl e)
  then show ?thesis by (auto simp: run_def)
next
  case (Inr r)
  then obtain img md where pn: "process_nifti env p a = Inr (img, md)"
    by (auto simp: run_try_def split: sum.splits)
  define op where
    "op = path_div env (temp_dir self) (''processed_nifti_'' @ take 8 (uuid4_hex env) @ ''.png'')"
  have r: "r = ([''image_path'' \<mapsto> op],
                md ++ [''original_path'' \<mapsto> PStr p, ''output_path'' \<mapsto> PStr op,
                       ''rotation_angle'' \<mapsto> PAngle a,
                       ''analysis_status'' \<mapsto> PStr ''completed''])"
    using Inr pn by (simp add: run_try_def Let_def op_def split: option.splits)
  have run_r: "run env self p a = r"
    using Inr by (simp add: run_def)
  from process_nifti_metadata [OF pn]
  have dom_md: "dom md = {''dimensions'', ''shape'', ''affine'', ''header_info''}"
    by (auto split: if_splits)
  have "dom (snd r) =
          {''dimensions'', ''shape'', ''affine'', ''header_info'', ''original_path'',
           ''output_path'', ''rotation_angle'', ''analysis_status''}"
    unfolding r snd_conv dom_map_add dom_md by auto
  moreover have "snd r ''analysis_status'' = Some (PStr ''completed'')"
    unfolding r by simp
  moreover have "snd r ''original_path'' = Some (PStr p)"
    unfolding r by simp
  ultimately show ?thesis
    unfolding run_r by (simp add: Inr)
qed

text \<open>
  The claim as stated fails: the metadata of a failed run has none of \<open>dimensions\<close>,
  \<open>shape\<close>, \<open>affine\<close>, \<open>header_info\<close> and \<open>original_path\<close>.
\<close>

theorem failed_metadata_counterexample:
  "snd (run env0 tool0 ''x.nii'' (Some 90)) ''analysis_status'' = Some (PStr ''failed'') \<and>
   snd (run env0 tool0 ''x.nii'' (Some 90)) ''dimensions'' = None \<and>
   snd (run env0 tool0 ''x.nii'' (Some 90)) ''shape'' = None \<and>
   snd (run env0 tool0 ''x.nii'' (Some 90)) ''affine'' = None \<and>
   snd (run env0 tool0 ''x.nii'' (Some 90)) ''header_info'' = None \<and>
   snd (run env0 tool0 ''x.nii'' (Some 90)) ''original_path'' = None"
  by (simp add: run_def run_try_def process_nifti_def env0_def)

lemma rotate_image_accepts_some:
  assumes "2 \<le> length (shape p)"
  shows "\<exists>r. rotate_image p (Some a) = Inr r"
  using assms by (simp add: rotate_image_def rot90_total)

lemma rotated_constant:
  assumes sh: "shape s = [4, 4]"
      and c: "\<forall>i<4. \<forall>j<4. elem s [i, j] = c"
      and r: "rotate_image s (Some a) = Inr r"
  shows "shape r = [4, 4] \<and> (\<forall>i<4. \<forall>j<4. elem r [i, j] = c)"
proof -
  have 2: "2 \<le> length (shape s)" using sh by simp
  have r_eq: "r = (if (a div 90) mod 4 = 0 then s
                else if (a div 90) mod 4 = 2 then flip (flip s 0) 1
                else if (a div 90) mod 4 = 1 then transpose01 (flip s 1)
                else flip (transpose01 s) 1)"
    using r by (simp add: rotate_image_def rot90_total [OF 2])
  have "shape r = [4, 4]"
    unfolding r_eq using sh by simp
  moreover have "elem r [i, j] = c" if "i < 4" "j < 4" for i j
  proof -
    have "3 - i < 4" "3 - j < 4" using that by auto
    then show ?thesis
      unfolding r_eq using sh c that by (simp add: flip_def transpose01_def)
  qed
  ultimately show ?thesis by blast
qed

lemma flat_constant:
  assumes "\<forall>idx \<in> set (indices (shape r)). elem r idx = c"
  shows "flat r = replicate (prod_list (shape r)) c"
proof -
  have "map (elem r) (indices (shape r)) = map (\<lambda>_. c) (indices (shape r))"
    using assms by (intro map_cong) auto
  then show ?thesis
    by (simp add: flat_def map_replicate_const length_indices)
qed

text \<open>
  Claim C8. A loadable 3-D volume of shape (4, 4, 2) whose elements are all equal, run
  through \<open>_run\<close> with any integer angle and a save that succeeds, gives the output
  \<open>{image_path}\<close> and metadata with \<open>analysis_status = "completed"\<close>,
  \<open>shape = (4, 4, 2)\<close> and no \<open>error_details\<close>. The normalisation does not raise: every
  pixel of the 4 by 4 image is the cast of \<open>(c - lo) / (hi - lo) * 255\<close>, whatever value the
  float operations give to it.
\<close>

theorem constant_volume_completes:
  assumes load: "nib_load env p = Inr nii"
      and data: "get_fdata nii = Inr v"
      and sh: "shape v = [4, 4, 2]"
      and const: "\<forall>idx \<in> set (indices [4, 4, 2]). elem v idx = c"
      and save: "\<forall>img. image_save env
                   (path_div env (temp_dir self)
                      (''processed_nifti_'' @ take 8 (uuid4_hex env) @ ''.png'')) img = None"
  shows "fst (run env self p (Some a)) =
           [''image_path'' \<mapsto> path_div env (temp_dir self)
                      (''processed_nifti_'' @ take 8 (uuid4_hex env) @ ''.png'')] \<and>
         snd (run env self p (Some a)) ''analysis_status'' = Some (PStr ''completed'') \<and>
         snd (run env self p (Some a)) ''shape'' = Some (PTuple [4, 4, 2]) \<and>
         snd (run env self p (Some a)) ''error_details'' = None \<and>
         (\<exists>img md. process_nifti env p (Some a) = Inr (img, md) \<and> shape img = [4, 4] \<and>
            (\<forall>idx \<in> set (indices [4, 4]). elem img idx =
               to_uint8 (ops env)
                 (fmul (ops env)
                    (fdiv (ops env)
                       (fsub (ops env) c (amin (ops env) (replicate 16 c)))
                       (fsub (ops env) (amax (ops env) (replicate 16 c))
                          (amin (ops env) (replicate 16 c))))
                    (f255 (ops env)))))"
proof -
  let ?s = "\<lparr>shape = [4, 4], elem = (\<lambda>idx. elem v (sel_index [None, None, Some 0] idx))\<rparr>"
  let ?md = "[''dimensions'' \<mapsto> PInt (int (length (shape v))),
              ''shape'' \<mapsto> PTuple (shape v),
              ''affine'' \<mapsto> PAffine (affine_tolist nii),
              ''header_info'' \<mapsto> (PHeader (header_dict nii) :: ('a, 'b) pyval)]"
  have fs: "first_slice v = Inr ?s"
    using sh by (intro first_slice_3d) auto
  have cs: "\<forall>i<4. \<forall>j<4. elem ?s [i, j] = c"
    using const unfolding in_indices3 by auto
  have 2: "2 \<le> length (shape ?s)" by simp
  obtain r where r: "rotate_image ?s (Some a) = Inr r"
    using rotate_image_accepts_some [OF 2] by blast
  from rotated_constant [OF _ cs r]
  have shr: "shape r = [4, 4]" and cr: "\<forall>i<4. \<forall>j<4. elem r [i, j] = c"
    by simp_all
  have cr': "\<forall>idx \<in> set (indices (shape r)). elem r idx = c"
    unfolding shr in_indices2 using cr by auto
  have fl: "flat r = replicate 16 c"
    using flat_constant [OF cr'] by (simp add: shr)
  define lo where "lo = amin (ops env) (replicate 16 c)"
  define hi where "hi = amax (ops env) (replicate 16 c)"
  let ?img = "\<lparr>shape = [4, 4],
               elem = (\<lambda>idx. to_uint8 (ops env)
                 (fmul (ops env) (fdiv (ops env) (fsub (ops env) (elem r idx) lo)
                    (fsub (ops env) hi lo)) (f255 (ops env))))\<rparr>"
  have nz: "normalize (ops env) r = Inr ?img"
    by (simp add: normalize_def shr fl lo_def hi_def Let_def)
  have pn: "process_nifti env p (Some a) = Inr (?img, ?md)"
    by (simp add: process_nifti_def load data fs r nz Let_def)
  let ?op = "path_div env (temp_dir self) (''processed_nifti_'' @ take 8 (uuid4_hex env) @ ''.png'')"
  have sv: "image_save env ?op ?img = None" using save by blast
  have rt: "run_try env self p (Some a) =
          Inr ([''image_path'' \<mapsto> ?op],
               ?md ++ [''original_path'' \<mapsto> PStr p, ''output_path'' \<mapsto> PStr ?op,
                       ''rotation_angle'' \<mapsto> PAngle (Some a),
                       ''analysis_status'' \<mapsto> PStr ''completed''])"
    using sv by (simp add: run_try_def pn Let_def)
  have run_eq: "run env self p (Some a) =
          ([''image_path'' \<mapsto> ?op],
               ?md ++ [''original_path'' \<mapsto> PStr p, ''output_path'' \<mapsto> PStr ?op,
                       ''rotation_angle'' \<mapsto> PAngle (Some a),
                       ''analysis_status'' \<mapsto> PStr ''completed''])"
    by (simp add: run_def rt)
  have 1: "fst (run env self p (Some a)) = [''image_path'' \<mapsto> ?op]"
    unfolding run_eq by simp
  have 2: "snd (run env self p (Some a)) ''analysis_status'' = Some (PStr ''completed'')"
    unfolding run_eq by simp
  have 3: "snd (run env self p (Some a)) ''shape'' = Some (PTuple [4, 4, 2])"
    unfolding run_eq by (simp add: sh)
  have 4: "snd (run env self p (Some a)) ''error_details'' = None"
    unfolding run_eq by simp
  have 5: "\<forall>idx \<in> set (indices [4, 4]). elem ?img idx =
               to_uint8 (ops env)
                 (fmul (ops env) (fdiv (ops env) (fsub (ops env) c lo) (fsub (ops env) hi lo))
                    (f255 (ops env)))"
    unfolding in_indices2 using cr by auto
  have 6: "\<exists>img md. process_nifti env p (Some a) = Inr (img, md) \<and> shape img = [4, 4] \<and>
            (\<forall>idx \<in> set (indices [4, 4]). elem img idx =
               to_uint8 (ops env)
                 (fmul (ops env) (fdiv (ops env) (fsub (ops env) c lo) (fsub (ops env) hi lo))
                    (f255 (ops env))))"
  proof (intro exI conjI)
    show "process_nifti env p (Some a) = Inr (?img, ?md)" by (rule pn)
    show "shape ?img = [4, 4]" by simp
    show "\<forall>idx \<in> set (indices [4, 4]). elem ?img idx =
               to_uint8 (ops env)
                 (fmul (ops env) (fdiv (ops env) (fsub (ops env) c lo) (fsub (ops env) hi lo))
                    (f255 (ops env)))" by (rule 5)
  qed
  show ?thesis
    using 1 2 3 4 6 unfolding lo_def hi_def by (intro conjI)
qed

theorem constant_volume_completes_witness:
  "nib_load env0 ''scan.nii'' = Inr img0 \<and> get_fdata img0 = Inr vol0 \<and> shape vol0 = [4, 4, 2] \<and>
   fst (run env0 tool0 ''scan.nii'' (Some 90)) ''image_path'' =
     Some ''temp/processed_nifti_01234567.png'' \<and>
   snd (run env0 tool0 ''scan.nii'' (Some 90)) ''analysis_status'' = Some (PStr ''completed'') \<and>
   snd (run env0 tool0 ''scan.nii'' (Some 90)) ''shape'' = Some (PTuple [4, 4, 2])"
proof -
  have 1: "nib_load env0 ''scan.nii'' = Inr img0" by (simp add: env0_def)
  have 2: "get_fdata img0 = Inr vol0" by (simp add: img0_def)
  have 3: "shape vol0 = [4, 4, 2]" by (simp add: vol0_def)
  have 4: "\<forall>idx \<in> set (indices [4, 4, 2]). elem vol0 idx = 7" by (simp add: vol0_def)
  have 5: "\<forall>img. image_save env0
                   (path_div env0 (temp_dir tool0)
                      (''processed_nifti_'' @ take 8 (uuid4_hex env0) @ ''.png'')) img = None"
    by (simp add: env0_def)
  from constant_volume_completes [OF 1 2 3 4 5, of 90] 1 2 3
  show ?thesis by (simp add: env0_def tool0_def)
qed

section \<open>Intensity normalisation\<close>

lemma normalize_nonempty:
  assumes "prod_list (shape p) \<noteq> 0"
  shows "normalize fo p =
           Inr \<lparr>shape = shape p,
                elem = (\<lambda>idx. to_uint8 fo
                  (fmul fo (fdiv fo (fsub fo (elem p idx) (amin fo (flat p)))
                     (fsub fo (amax fo (flat p)) (amin fo (flat p)))) (f255 fo)))\<rparr>"
  using assms by (simp add: normalize_def Let_def)

lemma uint8_range: "unat (w :: 8 word) \<le> 255"
proof -
  have "unat w < 2 ^ LENGTH(8)" by (rule unsigned_less)
  then show ?thesis by simp
qed

lemma normalize_extremes:
  assumes ne: "prod_list (shape p) \<noteq> 0"
      and lo: "lo = amin fo (flat p)"
      and hi: "hi = amax fo (flat p)"
      and z1: "fsub fo lo lo = zero"
      and z2: "fdiv fo zero (fsub fo hi lo) = zero"
      and z3: "fmul fo zero (f255 fo) = zero"
      and z4: "to_uint8 fo zero = 0"
      and o1: "fdiv fo (fsub fo hi lo) (fsub fo hi lo) = one"
      and o2: "fmul fo one (f255 fo) = f255 fo"
      and o3: "to_uint8 fo (f255 fo) = 255"
  shows "\<exists>out. normalize fo p = Inr out \<and> shape out = shape p \<and>
           (\<forall>idx \<in> set (indices (shape p)).
              unat (elem out idx) \<le> 255 \<and>
              (elem p idx = lo \<longrightarrow> elem out idx = 0) \<and>
              (elem p idx = hi \<longrightarrow> elem out idx = 255))"
proof -
  let ?out = "\<lparr>shape = shape p,
                elem = (\<lambda>idx. to_uint8 fo
                  (fmul fo (fdiv fo (fsub fo (elem p idx) lo) (fsub fo hi lo)) (f255 fo)))\<rparr>"
  have n: "normalize fo p = Inr ?out"
    unfolding lo hi by (rule normalize_nonempty [OF ne])
  have a: "elem ?out idx = 0" if "elem p idx = lo" for idx
    using that by (simp add: z1 z2 z3 z4)
  have b: "elem ?out idx = 255" if "elem p idx = hi" for idx
    using that by (simp add: o1 o2 o3)
  have c: "\<forall>idx \<in> set (indices (shape p)).
              unat (elem ?out idx) \<le> 255 \<and>
              (elem p idx = lo \<longrightarrow> elem ?out idx = 0) \<and>
              (elem p idx = hi \<longrightarrow> elem ?out idx = 255)"
    using a b uint8_range by blast
  have d: "shape ?out = shape p" by simp
  from n d c show ?thesis by blast
qed






lemma plane_inf_flat: "flat plane_inf = [NInf, Fin 0]"
  by (simp add: flat_def plane_inf_def upt_rec)


lemma normalize_infinite_any_cast:
  "\<not> isl (normalize (f64_ops c) plane_inf) \<and>
   elem (projr (normalize (f64_ops c) plane_inf)) [0, 0] = c \<and>
   elem (projr (normalize (f64_ops c) plane_inf)) [0, 1] = c"
  by (simp add: plane_inf_flat normalize_def Let_def)
     (simp add: plane_inf_def f64_ops_def f64_min_def f64_max_def)

text \<open>
  In the model, the laws that the amended claim asks for hold for every non-empty plane of
  finite values of which two differ.
\<close>

lemma fold_min_Fin:
  "fold (\<lambda>x m. if f64_le x m then x else m) (map Fin qs) (Fin q) = Fin (fold min qs q)"
proof (induction qs arbitrary: q)
  case Nil
  then show ?case by simp
next
  case (Cons a qs)
  have "(if a \<le> q then Fin a else Fin q) = Fin (min a q)" by (simp add: min_def)
  then show ?case using Cons [of "min a q"] by simp
qed

lemma fold_max_Fin:
  "fold (\<lambda>x m. if f64_le m x then x else m) (map Fin qs) (Fin q) = Fin (fold max qs q)"
proof (induction qs arbitrary: q)
  case Nil
  then show ?case by simp
next
  case (Cons a qs)
  have "(if q \<le> a then Fin a else Fin q) = Fin (max a q)" by (auto simp: max_def)
  then show ?case using Cons [of "max a q"] by simp
qed

lemma f64_min_Fin:
  assumes "qs \<noteq> []"
  shows "f64_min (map Fin qs) = Fin (Min (set qs))"
proof -
  obtain a as where qs: "qs = a # as" using assms by (cases qs) auto
  have "NaN \<notin> set (map Fin qs)" by auto
  then have "f64_min (map Fin qs) = Fin (fold min as a)"
    by (simp add: f64_min_def qs fold_min_Fin)
  also have "fold min as a = Min (set qs)"
    unfolding qs by (rule Min.set_eq_fold [symmetric])
  finally show ?thesis .
qed

lemma f64_max_Fin:
  assumes "qs \<noteq> []"
  shows "f64_max (map Fin qs) = Fin (Max (set qs))"
proof -
  obtain a as where qs: "qs = a # as" using assms by (cases qs) auto
  have "NaN \<notin> set (map Fin qs)" by auto
  then have "f64_max (map Fin qs) = Fin (fold max as a)"
    by (simp add: f64_max_def qs fold_max_Fin)
  also have "fold max as a = Max (set qs)"
    unfolding qs by (rule Max.set_eq_fold [symmetric])
  finally show ?thesis .
qed

lemma f64_finite_plane:
  assumes ne: "prod_list (shape p) \<noteq> 0"
      and fin: "\<forall>idx \<in> set (indices (shape p)). \<exists>q. elem p idx = Fin q"
      and two: "\<exists>i \<in> set (indices (shape p)). \<exists>j \<in> set (indices (shape p)). elem p i \<noteq> elem p j"
  shows "\<exists>m M. amin (f64_ops c) (flat p) = Fin m \<and> amax (f64_ops c) (flat p) = Fin M \<and> m < M"
proof -
  define qs where "qs = map (\<lambda>idx. fin_val (elem p idx)) (indices (shape p))"
  have fl: "flat p = map Fin qs"
    unfolding flat_def qs_def map_map using fin by (intro map_cong) auto
  have "length qs = prod_list (shape p)" by (simp add: qs_def length_indices)
  then have nq: "qs \<noteq> []" using ne by auto
  obtain i j where ij: "i \<in> set (indices (shape p))" "j \<in> set (indices (shape p))"
      "elem p i \<noteq> elem p j" using two by blast
  obtain a b where ab: "elem p i = Fin a" "elem p j = Fin b" using fin ij by blast
  have "a \<in> set qs" "b \<in> set qs"
    using ij(1,2) ab unfolding qs_def set_map by force+
  then have "Min (set qs) \<le> a" "Min (set qs) \<le> b" "a \<le> Max (set qs)" "b \<le> Max (set qs)"
    by simp_all
  moreover have "a \<noteq> b" using ij(3) ab by simp
  ultimately have "Min (set qs) < Max (set qs)" by linarith
  moreover have "amin (f64_ops c) (flat p) = Fin (Min (set qs))"
    by (simp add: f64_ops_def fl f64_min_Fin [OF nq])
  moreover have "amax (f64_ops c) (flat p) = Fin (Max (set qs))"
    by (simp add: f64_ops_def fl f64_max_Fin [OF nq])
  ultimately show ?thesis by blast
qed

lemma f64_normalize_finite:
  assumes ne: "prod_list (shape p) \<noteq> 0"
      and fin: "\<forall>idx \<in> set (indices (shape p)). \<exists>q. elem p idx = Fin q"
      and two: "\<exists>i \<in> set (indices (shape p)). \<exists>j \<in> set (indices (shape p)). elem p i \<noteq> elem p j"
  shows "\<exists>out. normalize (f64_ops c) p = Inr out \<and> shape out = shape p \<and>
           (\<forall>idx \<in> set (indices (shape p)).
              unat (elem out idx) \<le> 255 \<and>
              (elem p idx = amin (f64_ops c) (flat p) \<longrightarrow> elem out idx = 0) \<and>
              (elem p idx = amax (f64_ops c) (flat p) \<longrightarrow> elem out idx = 255))"
proof -
  obtain m M where mM: "amin (f64_ops c) (flat p) = Fin m" "amax (f64_ops c) (flat p) = Fin M" "m < M"
    using f64_finite_plane [OF ne fin two] by blast
  have d: "M - m \<noteq> 0" using mM(3) by simp
  show ?thesis
  proof (rule normalize_extremes [OF ne, where zero = "Fin 0" and one = "Fin 1"])
    show "amin (f64_ops c) (flat p) = amin (f64_ops c) (flat p)" by simp
    show "amax (f64_ops c) (flat p) = amax (f64_ops c) (flat p)" by simp
    show "fsub (f64_ops c) (amin (f64_ops c) (flat p)) (amin (f64_ops c) (flat p)) = Fin 0"
      by (simp add: mM) (simp add: f64_ops_def)
    show "fdiv (f64_ops c) (Fin 0)
            (fsub (f64_ops c) (amax (f64_ops c) (flat p)) (amin (f64_ops c) (flat p))) = Fin 0"
      using d by (simp add: mM) (simp add: f64_ops_def)
    show "fmul (f64_ops c) (Fin 0) (f255 (f64_ops c)) = Fin 0"
      by (simp add: f64_ops_def)
    show "to_uint8 (f64_ops c) (Fin 0) = 0" by (simp add: f64_ops_def)
    show "fdiv (f64_ops c)
            (fsub (f64_ops c) (amax (f64_ops c) (flat p)) (amin (f64_ops c) (flat p)))
            (fsub (f64_ops c) (amax (f64_ops c) (flat p)) (amin (f64_ops c) (flat p))) = Fin 1"
      using d by (simp add: mM) (simp add: f64_ops_def)
    show "fmul (f64_ops c) (Fin 1) (f255 (f64_ops c)) = f255 (f64_ops c)"
      by (simp add: f64_ops_def)
    show "to_uint8 (f64_ops c) (f255 (f64_ops c)) = 255" by (simp add: f64_ops_def)
  qed
qed

section \<open>The batch converter: preconditions and the output directory\<close>

text \<open>
  Claim C2. When the input path does not exist, \<open>convert_nii_to_png\<close> raises
  \<open>FileNotFoundError\<close>; when it exists and ends neither in \<open>.nii\<close> nor in
  \<open>.nii.gz\<close>, it raises \<open>ValueError\<close>. In both cases no call has been made before: no
  directory created, no load attempted, no plane written.
\<close>

theorem batch_preconditions:
  "(\<not> path_exists env p \<longrightarrow>
      convert_nii_to_png env p od a =
        ([], Inl (Exn FileNotFoundError (''Input file not found: '' @ p)))) \<and>
   (path_exists env p \<and> \<not> endswith p ''.nii'' \<and> \<not> endswith p ''.nii.gz'' \<longrightarrow>
      convert_nii_to_png env p od a =
        ([], Inl (Exn ValueError
           (''Input file must be a NIfTI file (.nii or .nii.gz): '' @ p))))"
  by (simp add: convert_nii_to_png_def)

theorem batch_preconditions_witness:
  "convert_nii_to_png benv0 ''/data/missing.nii'' None 90 =
     ([], Inl (Exn FileNotFoundError ''Input file not found: /data/missing.nii'')) \<and>
   convert_nii_to_png benv0 ''/data/notes.txt'' None 90 =
     ([], Inl (Exn ValueError
        ''Input file must be a NIfTI file (.nii or .nii.gz): /data/notes.txt''))"
proof -
  have 1: "\<not> path_exists benv0 ''/data/missing.nii''"
    by (simp add: benv0_def)
  have 2: "path_exists benv0 ''/data/notes.txt'' \<and> \<not> endswith ''/data/notes.txt'' ''.nii'' \<and>
           \<not> endswith ''/data/notes.txt'' ''.nii.gz''"
    by (simp add: benv0_def endswith_def)
  from batch_preconditions [of benv0 "''/data/missing.nii''" None 90] 1
       batch_preconditions [of benv0 "''/data/notes.txt''" None 90] 2
  show ?thesis by simp
qed

text \<open>
  Claim C10. For an existing path with a recognised suffix, the output directory (the
  stem joined to the absolute \<open>output_dir_path\<close>, or to the directory of the input) is
  created before the load. When the load or the decoding then raises, the exception
  propagates and the directory that was created stays.
\<close>

theorem output_dir_created_before_load:
  assumes "path_exists env p"
      and "endswith p ''.nii'' \<or> endswith p ''.nii.gz''"
      and "makedirs env (output_dir_of env p od) = None"
      and "nibabel_load env p = Inl e \<or>
           (\<exists>img. nibabel_load env p = Inr img \<and> get_fdata img = Inl e)"
  shows "convert_nii_to_png env p od a =
           ([Makedirs (output_dir_of env p od), Load p], Inl e) \<and>
         output_dir_of env p od =
           join (case od of None \<Rightarrow> dirname (abspath env p) | Some d \<Rightarrow> abspath env d)
                (split_dot_first (basename p))"
proof
  show "convert_nii_to_png env p od a = ([Makedirs (output_dir_of env p od), Load p], Inl e)"
    using assms by (auto simp: convert_nii_to_png_def Let_def)
  show "output_dir_of env p od =
           join (case od of None \<Rightarrow> dirname (abspath env p) | Some d \<Rightarrow> abspath env d)
                (split_dot_first (basename p))"
    by (simp add: output_dir_of_def Let_def split: option.splits)
qed

theorem output_dir_created_before_load_witness:
  "path_exists benv0 ''/data/bad.nii'' \<and> endswith ''/data/bad.nii'' ''.nii'' \<and>
   convert_nii_to_png benv0 ''/data/bad.nii'' None 90 =
     ([Makedirs ''/data/bad'', Load ''/data/bad.nii''],
      Inl (Exn OtherException ''Cannot work out file type of /data/bad.nii''))"
proof -
  have 1: "path_exists benv0 ''/data/bad.nii''" by (simp add: benv0_def)
  have 2: "endswith ''/data/bad.nii'' ''.nii'' \<or> endswith ''/data/bad.nii'' ''.nii.gz''"
    by (simp add: endswith_def)
  have 3: "makedirs benv0 (output_dir_of benv0 ''/data/bad.nii'' None) = None"
    by (simp add: benv0_def)
  have 4: "nibabel_load benv0 ''/data/bad.nii'' =
             Inl (Exn OtherException ''Cannot work out file type of /data/bad.nii'') \<or>
           (\<exists>img. nibabel_load benv0 ''/data/bad.nii'' = Inr img \<and>
              get_fdata img = Inl (Exn OtherException ''Cannot work out file type of /data/bad.nii''))"
    by (simp add: benv0_def)
  have 5: "output_dir_of benv0 ''/data/bad.nii'' None = ''/data/bad''"
    by (simp add: output_dir_of_def benv0_def basename_def dirname_def join_def split_dot_first_def)
  from output_dir_created_before_load [OF 1 2 3 4, of 90] 1 5
  show ?thesis by (simp add: endswith_def)
qed

section \<open>File names: auxiliary facts\<close>

lemma digit_val_digit_char: "d < 10 \<Longrightarrow> digit_val (digit_char d) = d"
  by (simp add: digit_val_def digit_char_def)

lemma digit_char_not_underscore: "d < 10 \<Longrightarrow> digit_char d \<noteq> CHR ''_''"
proof
  assume "d < 10" and "digit_char d = CHR ''_''"
  then have "digit_val (digit_char d) = digit_val (CHR ''_'')" by simp
  with \<open>d < 10\<close> show False by (simp add: digit_val_digit_char) (simp add: digit_val_def)
qed

lemma nat_of_str_snoc: "nat_of_str (s @ [c]) = 10 * nat_of_str s + digit_val c"
  by (simp add: nat_of_str_def)

lemma nat_of_str_str_nat: "nat_of_str (str_nat n) = n"
proof (induction n rule: str_nat.induct)
  case (1 n)
  show ?case
  proof (cases "n < 10")
    case True
    then show ?thesis
      by (subst str_nat.simps) (simp add: nat_of_str_def digit_val_digit_char)
  next
    case False
    then have "nat_of_str (str_nat n) = 10 * nat_of_str (str_nat (n div 10)) + digit_val (digit_char (n mod 10))"
      by (subst str_nat.simps) (simp add: nat_of_str_snoc)
    also have "\<dots> = 10 * (n div 10) + n mod 10"
      using 1 False by (simp add: digit_val_digit_char)
    finally show ?thesis by simp
  qed
qed

lemma str_nat_inj:
  assumes "str_nat m = str_nat n"
  shows "m = n"
proof -
  have "nat_of_str (str_nat m) = nat_of_str (str_nat n)" using assms by simp
  then show ?thesis by (simp only: nat_of_str_str_nat)
qed

lemma underscore_notin_str_nat: "CHR ''_'' \<notin> set (str_nat n)"
proof (induction n rule: str_nat.induct)
  case (1 n)
  show ?case
  proof (cases "n < 10")
    case True
    then show ?thesis
      using digit_char_not_underscore [of n] by (subst str_nat.simps) auto
  next
    case False
    then show ?thesis
      using 1 digit_char_not_underscore [of "n mod 10"] by (subst str_nat.simps) auto
  qed
qed

lemma nat_of_str_zeros: "nat_of_str (replicate k (CHR ''0'') @ s) = nat_of_str s"
proof -
  have "foldl (\<lambda>acc c. 10 * acc + digit_val c) 0 (replicate k (CHR ''0'')) = 0"
    by (induction k) (simp_all add: digit_val_def)
  then show ?thesis by (simp add: nat_of_str_def)
qed

lemma nat_of_str_zfill: "nat_of_str (zfill w s) = nat_of_str s"
  by (simp add: zfill_def nat_of_str_zeros)

lemma zfill_str_nat_inj:
  assumes "zfill w (str_nat m) = zfill w (str_nat n)"
  shows "m = n"
proof -
  have "nat_of_str (zfill w (str_nat m)) = nat_of_str (zfill w (str_nat n))" using assms by simp
  then show ?thesis by (simp only: nat_of_str_zfill nat_of_str_str_nat)
qed

lemma takeWhile_stop: "c \<notin> set xs \<Longrightarrow> takeWhile (\<lambda>x. x \<noteq> c) (xs @ c # ys) = xs"
  by (induction xs) auto

lemma join_relative:
  assumes "n = [] \<or> hd n \<noteq> CHR ''/''"
  shows "join d n = (if d = [] \<or> last d = CHR ''/'' then d @ n else d @ CHR ''/'' # n)"
proof -
  have "\<not> (n \<noteq> [] \<and> hd n = CHR ''/'')" using assms by blast
  then show ?thesis by (simp only: join_def if_False)
qed

lemma join_inj:
  assumes "join d n = join d n'"
      and "n = [] \<or> hd n \<noteq> CHR ''/''" "n' = [] \<or> hd n' \<noteq> CHR ''/''"
  shows "n = n'"
proof (cases "d = [] \<or> last d = CHR ''/''")
  case True
  have "d @ n = d @ n'"
    using assms(1) by (simp only: join_relative [OF assms(2)] join_relative [OF assms(3)] True if_True)
  then show ?thesis by simp
next
  case False
  have "d @ CHR ''/'' # n = d @ CHR ''/'' # n'"
    using assms(1) by (simp only: join_relative [OF assms(2)] join_relative [OF assms(3)] False if_False)
  then show ?thesis by simp
qed

lemma slash_notin_basename: "CHR ''/'' \<notin> set (basename p)"
proof -
  have "CHR ''/'' \<notin> set (takeWhile (\<lambda>c. c \<noteq> CHR ''/'') (rev p))"
    by (auto dest: set_takeWhileD)
  then show ?thesis by (simp add: basename_def)
qed

lemma slash_notin_stem: "CHR ''/'' \<notin> set (split_dot_first (basename p))"
  using slash_notin_basename [of p] by (auto simp: split_dot_first_def dest: set_takeWhileD)

lemma hd_stem_append:
  assumes "CHR ''/'' \<notin> set stem" "c \<noteq> CHR ''/''"
  shows "hd (stem @ c # rest) \<noteq> CHR ''/''"
  using assms by (cases stem) auto

lemma basename_snoc_slash:
  assumes "CHR ''/'' \<notin> set n"
  shows "basename (xs @ CHR ''/'' # n) = n"
proof -
  have "takeWhile (\<lambda>c. c \<noteq> CHR ''/'') (rev n @ CHR ''/'' # rev xs) = rev n"
    using assms by (intro takeWhile_stop) simp
  then show ?thesis by (simp add: basename_def)
qed

lemma basename_no_slash:
  assumes "CHR ''/'' \<notin> set n"
  shows "basename n = n"
proof -
  have "\<forall>x \<in> set (rev n). x \<noteq> CHR ''/''" using assms by auto
  then have "takeWhile (\<lambda>c. c \<noteq> CHR ''/'') (rev n) = rev n"
    by (simp only: takeWhile_eq_all_conv)
  then show ?thesis by (simp only: basename_def rev_rev_ident)
qed

lemma basename_join:
  assumes "CHR ''/'' \<notin> set n"
  shows "basename (join d n) = n"
proof -
  have hn: "n = [] \<or> hd n \<noteq> CHR ''/''" using assms by (cases n) auto
  show ?thesis
  proof (cases "d = []")
    case True
    then have "join d n = n" by (simp add: join_relative [OF hn])
    then show ?thesis by (simp only: basename_no_slash [OF assms])
  next
    case False
    show ?thesis
    proof (cases "last d = CHR ''/''")
      case True
      have "butlast d @ [last d] = d" using False by (rule append_butlast_last_id)
      then have "d = butlast d @ [CHR ''/'']" using True by simp
      then have "d @ n = butlast d @ CHR ''/'' # n" by (metis append_Cons append_Nil append_assoc)
      moreover have "join d n = d @ n" using True by (simp add: join_relative [OF hn])
      ultimately have "join d n = butlast d @ CHR ''/'' # n" by simp
      then show ?thesis by (simp only: basename_snoc_slash [OF assms])
    next
      case l: False
      have "join d n = d @ CHR ''/'' # n" using l False by (simp add: join_relative [OF hn])
      then show ?thesis by (simp only: basename_snoc_slash [OF assms])
    qed
  qed
qed

lemma split_at_underscore:
  assumes "A @ CHR ''_'' # R = A' @ CHR ''_'' # R'" "CHR ''_'' \<notin> set A" "CHR ''_'' \<notin> set A'"
  shows "A = A' \<and> R = R'"
proof -
  have "takeWhile (\<lambda>c. c \<noteq> CHR ''_'') (A @ CHR ''_'' # R) = A"
    using assms(2) by (rule takeWhile_stop)
  moreover have "takeWhile (\<lambda>c. c \<noteq> CHR ''_'') (A' @ CHR ''_'' # R') = A'"
    using assms(3) by (rule takeWhile_stop)
  ultimately have "A = A'" using assms(1) by simp
  then show ?thesis using assms(1) by simp
qed

lemma stem_name_hd:
  assumes "CHR ''/'' \<notin> set stem"
  shows "stem @ CHR ''_'' # rest = [] \<or> hd (stem @ CHR ''_'' # rest) \<noteq> CHR ''/''"
  using hd_stem_append [OF assms, of "CHR ''_''" rest] by simp

lemma name3_inj:
  assumes st: "CHR ''/'' \<notin> set stem" and eq: "name3 d stem s = name3 d stem s'"
  shows "s = s'"
proof -
  define r where "r t = ''z'' @ zfill 3 (str_nat (t + 1)) @ ''.png''" for t
  have n3: "name3 d stem t = join d (stem @ CHR ''_'' # r t)" for t
    by (simp add: name3_def r_def)
  have "join d (stem @ CHR ''_'' # r s) = join d (stem @ CHR ''_'' # r s')"
    using eq by (simp only: n3)
  then have "stem @ CHR ''_'' # r s = stem @ CHR ''_'' # r s'"
    by (rule join_inj) (rule stem_name_hd [OF st])+
  then have "zfill 3 (str_nat (s + 1)) = zfill 3 (str_nat (s' + 1))"
    by (simp add: r_def)
  then have "s + 1 = s' + 1" by (rule zfill_str_nat_inj)
  then show ?thesis by simp
qed

lemma name4_inj:
  assumes st: "CHR ''/'' \<notin> set stem" and eq: "name4 d stem v s = name4 d stem v' s'"
  shows "v = v' \<and> s = s'"
proof -
  define r where "r t = ''z'' @ zfill 3 (str_nat (t + 1)) @ ''.png''" for t
  define q where "q u t = ''vol'' @ str_nat (u + 1) @ CHR ''_'' # r t" for u t
  have n4: "name4 d stem u t = join d (stem @ CHR ''_'' # q u t)" for u t
    by (simp add: name4_def r_def q_def)
  have "join d (stem @ CHR ''_'' # q v s) = join d (stem @ CHR ''_'' # q v' s')"
    using eq by (simp only: n4)
  then have "stem @ CHR ''_'' # q v s = stem @ CHR ''_'' # q v' s'"
    by (rule join_inj) (rule stem_name_hd [OF st])+
  then have "str_nat (v + 1) @ CHR ''_'' # r s = str_nat (v' + 1) @ CHR ''_'' # r s'"
    by (simp add: q_def)
  from split_at_underscore [OF this underscore_notin_str_nat underscore_notin_str_nat]
  have 1: "str_nat (v + 1) = str_nat (v' + 1)" and 2: "r s = r s'"
    by simp_all
  from 1 have "v + 1 = v' + 1" by (rule str_nat_inj)
  moreover from 2 have "zfill 3 (str_nat (s + 1)) = zfill 3 (str_nat (s' + 1))"
    by (simp add: r_def)
  then have "s + 1 = s' + 1" by (rule zfill_str_nat_inj)
  ultimately show ?thesis by simp
qed

lemma of_char_digit_char: "d < 10 \<Longrightarrow> (of_char (digit_char d) :: nat) = 48 + d"
  by (simp add: digit_char_def)

lemma digit_char_not_slash: "d < 10 \<Longrightarrow> digit_char d \<noteq> CHR ''/''"
proof
  assume "d < 10" and "digit_char d = CHR ''/''"
  then have "(of_char (digit_char d) :: nat) = of_char (CHR ''/'')" by simp
  with \<open>d < 10\<close> show False by (simp add: of_char_digit_char)
qed

lemma slash_notin_str_nat: "CHR ''/'' \<notin> set (str_nat n)"
proof (induction n rule: str_nat.induct)
  case (1 n)
  show ?case
  proof (cases "n < 10")
    case True
    then show ?thesis
      using digit_char_not_slash [of n] by (subst str_nat.simps) auto
  next
    case False
    then show ?thesis
      using 1 digit_char_not_slash [of "n mod 10"] by (subst str_nat.simps) auto
  qed
qed

lemma slash_notin_zfill: "CHR ''/'' \<notin> set (zfill w (str_nat n))"
  using slash_notin_str_nat [of n] by (auto simp: zfill_def)

lemma basename_name3:
  assumes "CHR ''/'' \<notin> set stem"
  shows "basename (name3 dir stem s) = stem @ ''_z'' @ zfill 3 (str_nat (s + 1)) @ ''.png''"
proof -
  have "CHR ''/'' \<notin> set (stem @ ''_z'' @ zfill 3 (str_nat (s + 1)) @ ''.png'')"
    using assms slash_notin_zfill [of 3 "s + 1"] by simp
  then show ?thesis unfolding name3_def by (rule basename_join)
qed

lemma basename_name4:
  assumes "CHR ''/'' \<notin> set stem"
  shows "basename (name4 dir stem v s) =
           stem @ ''_vol'' @ str_nat (v + 1) @ ''_z'' @ zfill 3 (str_nat (s + 1)) @ ''.png''"
proof -
  have "CHR ''/'' \<notin> set (stem @ ''_vol'' @ str_nat (v + 1) @ ''_z'' @ zfill 3 (str_nat (s + 1)) @ ''.png'')"
    using assms slash_notin_zfill [of 3 "s + 1"] slash_notin_str_nat [of "v + 1"] by simp
  then show ?thesis unfolding name4_def by (rule basename_join)
qed

lemma distinct_name3:
  assumes "CHR ''/'' \<notin> set stem"
  shows "distinct (map (name3 dir stem) [0..<Z])"
proof -
  have "inj_on (name3 dir stem) (set [0..<Z])"
    by (rule inj_onI) (rule name3_inj [OF assms])
  then show ?thesis by (simp add: distinct_map)
qed

lemma concat_map_product:
  "concat (map (\<lambda>v. map (f v) ss) vs) = map (\<lambda>(v, s). f v s) (List.product vs ss)"
  by (induction vs) simp_all

lemma distinct_name4:
  assumes "CHR ''/'' \<notin> set stem"
  shows "distinct (concat (map (\<lambda>v. map (name4 dir stem v) [0..<Z]) [0..<W]))"
proof -
  have "inj_on (\<lambda>(v, s). name4 dir stem v s) (set (List.product [0..<W] [0..<Z]))"
  proof (rule inj_onI)
    fix x y :: "nat \<times> nat"
    assume "(case x of (v, s) \<Rightarrow> name4 dir stem v s) = (case y of (v, s) \<Rightarrow> name4 dir stem v s)"
    then have "name4 dir stem (fst x) (snd x) = name4 dir stem (fst y) (snd y)"
      by (simp add: case_prod_beta)
    from name4_inj [OF assms this] show "x = y" by (simp add: prod_eq_iff)
  qed
  then show ?thesis
    by (simp only: concat_map_product distinct_map distinct_product distinct_upt simp_thms)
qed

section \<open>The batch converter: the planes written\<close>

lemma shape_quarter_turn: "shape (quarter_turn m) = swap01 (shape m)"
  by (simp add: quarter_turn_def)

lemma ndim_turns: "length (shape ((quarter_turn ^^ k) m)) = length (shape m)"
  by (induction k) (simp_all add: shape_quarter_turn)

lemma rot90_one: "2 \<le> length (shape m) \<Longrightarrow> rot90 m 1 = Inr (quarter_turn m)"
  by (simp add: rot90_quarter quarter_turn_def)

lemma rot90_one_turns:
  "2 \<le> length (shape m) \<Longrightarrow> rot90 ((quarter_turn ^^ k) m) 1 = Inr ((quarter_turn ^^ Suc k) m)"
  using rot90_one [of "(quarter_turn ^^ k) m"] by (simp add: ndim_turns)

lemma getitem_view:
  assumes "length ks \<le> length (shape arr)" "sel_ok ks (shape arr)"
  shows "getitem arr ks = Inr (view arr ks)"
  using assms by (simp add: getitem_def)

lemma assign_data_ok:
  assumes ang: "a = 90 \<or> a = 180 \<or> a = 270"
      and len: "length ks \<le> length (shape arr)"
      and ok: "sel_ok ks (shape arr)"
      and nd: "2 \<le> length (shape (view arr ks))"
  shows "assign_data a arr ks old = Inr (Some ((quarter_turn ^^ nat (a div 90)) (view arr ks)))"
proof -
  have g: "getitem arr ks = Inr (view arr ks)" by (rule getitem_view [OF len ok])
  let ?v = "view arr ks"
  have n1: "2 \<le> length (shape (quarter_turn ?v))"
    using nd by (simp add: shape_quarter_turn)
  have n2: "2 \<le> length (shape (quarter_turn (quarter_turn ?v)))"
    using nd by (simp add: shape_quarter_turn)
  have r0: "rot90 ?v 1 = Inr (quarter_turn ?v)"
    by (rule rot90_one [OF nd])
  have r1: "rot90 (quarter_turn ?v) 1 = Inr (quarter_turn (quarter_turn ?v))"
    by (rule rot90_one [OF n1])
  have r2: "rot90 (quarter_turn (quarter_turn ?v)) 1 =
              Inr (quarter_turn (quarter_turn (quarter_turn ?v)))"
    by (rule rot90_one [OF n2])
  from ang show ?thesis
  proof (elim disjE)
    assume "a = 90"
    then show ?thesis by (simp add: assign_data_def and_then_def g r0)
  next
    assume "a = 180"
    then show ?thesis by (simp add: assign_data_def and_then_def g r0 r1 numeral_2_eq_2)
  next
    assume "a = 270"
    then show ?thesis by (simp add: assign_data_def and_then_def g r0 r1 r2 numeral_3_eq_3)
  qed
qed

lemma plane_step_ok:
  assumes ang: "a = 90 \<or> a = 180 \<or> a = 270"
      and len: "length ks \<le> length (shape arr)"
      and ok: "sel_ok ks (shape arr)"
      and nd: "2 \<le> length (shape (view arr ks))"
      and sv: "\<forall>n d. imsave env n d = None"
  shows "plane_step env a arr ks name st =
           (st\<lparr>data := Some ((quarter_turn ^^ nat (a div 90)) (view arr ks)),
               log := log st @ [Imsave name ((quarter_turn ^^ nat (a div 90)) (view arr ks))],
               slice_counter := slice_counter st + 1\<rparr>, None)"
  by (simp add: plane_step_def assign_data_ok [OF ang len ok nd] sv Let_def)

lemma slices3_ok:
  assumes ang: "a = 90 \<or> a = 180 \<or> a = 270"
      and sh: "shape arr = [X, Y, Z]"
      and sv: "\<forall>n d. imsave env n d = None"
      and ss: "\<forall>s \<in> set ss. s < Z"
  shows "\<exists>st'. slices3 env dir stem a arr ss st = (st', None) \<and>
           log st' = log st @
             map (\<lambda>s. Imsave (name3 dir stem s)
                    ((quarter_turn ^^ nat (a div 90)) (view arr [None, None, Some s]))) ss \<and>
           slice_counter st' = slice_counter st + length ss"
  using ss
proof (induction ss arbitrary: st)
  case Nil
  then show ?case by simp
next
  case (Cons s ss)
  let ?ks = "[None, None, Some s]"
  let ?d = "(quarter_turn ^^ nat (a div 90)) (view arr ?ks)"
  let ?st1 = "st\<lparr>data := Some ?d, log := log st @ [Imsave (name3 dir stem s) ?d],
                 slice_counter := slice_counter st + 1\<rparr>"
  have s: "s < Z" using Cons.prems by simp
  have ps: "plane_step env a arr ?ks (name3 dir stem s) st = (?st1, None)"
    using s by (intro plane_step_ok [OF ang _ _ _ sv]) (simp_all add: sh view_def)
  obtain st' where st': "slices3 env dir stem a arr ss ?st1 = (st', None)"
      "log st' = log ?st1 @
             map (\<lambda>s. Imsave (name3 dir stem s)
                    ((quarter_turn ^^ nat (a div 90)) (view arr [None, None, Some s]))) ss"
      "slice_counter st' = slice_counter ?st1 + length ss"
    using Cons.IH [of ?st1] Cons.prems by auto
  have "slices3 env dir stem a arr (s # ss) st = (st', None)"
    using ps st'(1) by simp
  then show ?case using st'(2,3) by simp
qed

lemma slices4_ok:
  assumes ang: "a = 90 \<or> a = 180 \<or> a = 270"
      and sh: "shape arr = [X, Y, Z, W]"
      and sv: "\<forall>n d. imsave env n d = None"
      and v: "v < W"
      and ss: "\<forall>s \<in> set ss. s < Z"
  shows "\<exists>st'. slices4 env dir stem a arr v ss st = (st', None) \<and>
           log st' = log st @
             map (\<lambda>s. Imsave (name4 dir stem v s)
                    ((quarter_turn ^^ nat (a div 90)) (view arr [None, None, Some s, Some v]))) ss \<and>
           slice_counter st' = slice_counter st + length ss"
  using ss
proof (induction ss arbitrary: st)
  case Nil
  then show ?case by simp
next
  case (Cons s ss)
  let ?ks = "[None, None, Some s, Some v]"
  let ?d = "(quarter_turn ^^ nat (a div 90)) (view arr ?ks)"
  let ?st1 = "st\<lparr>data := Some ?d, log := log st @ [Imsave (name4 dir stem v s) ?d],
                 slice_counter := slice_counter st + 1\<rparr>"
  have s: "s < Z" using Cons.prems by simp
  have ps: "plane_step env a arr ?ks (name4 dir stem v s) st = (?st1, None)"
    using s v by (intro plane_step_ok [OF ang _ _ _ sv]) (simp_all add: sh view_def)
  obtain st' where st': "slices4 env dir stem a arr v ss ?st1 = (st', None)"
      "log st' = log ?st1 @
             map (\<lambda>s. Imsave (name4 dir stem v s)
                    ((quarter_turn ^^ nat (a div 90)) (view arr [None, None, Some s, Some v]))) ss"
      "slice_counter st' = slice_counter ?st1 + length ss"
    using Cons.IH [of ?st1] Cons.prems by auto
  have "slices4 env dir stem a arr v (s # ss) st = (st', None)"
    using ps st'(1) by simp
  then show ?case using st'(2,3) by simp
qed

lemma volumes4_ok:
  assumes ang: "a = 90 \<or> a = 180 \<or> a = 270"
      and sh: "shape arr = [X, Y, Z, W]"
      and sv: "\<forall>n d. imsave env n d = None"
      and vs: "\<forall>v \<in> set vs. v < W"
  shows "\<exists>st'. volumes4 env dir stem a arr Z vs st = (st', None) \<and>
           log st' = log st @
             concat (map (\<lambda>v. map (\<lambda>s. Imsave (name4 dir stem v s)
                    ((quarter_turn ^^ nat (a div 90)) (view arr [None, None, Some s, Some v])))
                    [0..<Z]) vs) \<and>
           slice_counter st' = slice_counter st + Z * length vs"
  using vs
proof (induction vs arbitrary: st)
  case Nil
  then show ?case by simp
next
  case (Cons v vs)
  have v: "v < W" using Cons.prems by simp
  obtain st1 where st1: "slices4 env dir stem a arr v [0..<Z] st = (st1, None)"
      "log st1 = log st @
             map (\<lambda>s. Imsave (name4 dir stem v s)
                    ((quarter_turn ^^ nat (a div 90)) (view arr [None, None, Some s, Some v]))) [0..<Z]"
      "slice_counter st1 = slice_counter st + length [0..<Z]"
    using slices4_ok [OF ang sh sv v, of "[0..<Z]" dir stem st] by auto
  obtain st' where st': "volumes4 env dir stem a arr Z vs st1 = (st', None)"
      "log st' = log st1 @
             concat (map (\<lambda>v. map (\<lambda>s. Imsave (name4 dir stem v s)
                    ((quarter_turn ^^ nat (a div 90)) (view arr [None, None, Some s, Some v])))
                    [0..<Z]) vs)"
      "slice_counter st' = slice_counter st1 + Z * length vs"
    using Cons.IH [of st1] Cons.prems by auto
  have "volumes4 env dir stem a arr Z (v # vs) st = (st', None)"
    by (simp add: st1(1) st'(1))
  then show ?case using st'(2,3) st1(2,3) by simp
qed

text \<open>
  Claim C3. For a loadable volume, an angle of 90, 180 or 270 and saves that succeed,
  \<open>convert_nii_to_png\<close> makes these calls and returns the output directory: for a 3-D
  volume of shape (X, Y, Z), one \<open>imsave\<close> per slice, \<open>Z\<close> in all, to
  \<open><stem>_z<slice+1 on 3 digits>.png\<close>; for a 4-D volume of shape (X, Y, Z, W), one per
  slice of each volume, \<open>Z * W\<close> in all, volume by volume, to
  \<open><stem>_vol<volume+1>_z<slice+1 on 3 digits>.png\<close>. The paths are pairwise different
  and the plane saved is the slice turned by \<open>angle / 90\<close> quarter turns. The stem is the
  basename of the input up to its first dot.
\<close>

theorem batch_writes_every_plane:
  assumes ex: "path_exists env p"
      and suf: "endswith p ''.nii'' \<or> endswith p ''.nii.gz''"
      and dir: "dir = output_dir_of env p od"
      and stem: "stem = split_dot_first (basename p)"
      and mk: "makedirs env dir = None"
      and ld: "nibabel_load env p = Inr img"
      and fd: "get_fdata img = Inr arr"
      and ang: "a = 90 \<or> a = 180 \<or> a = 270"
      and sv: "\<forall>n d. imsave env n d = None"
  shows "(shape arr = [X, Y, Z] \<longrightarrow>
            convert_nii_to_png env p od a =
              ([Makedirs dir, Load p] @
               map (\<lambda>s. Imsave (join dir (stem @ ''_z'' @ zfill 3 (str_nat (s + 1)) @ ''.png''))
                      ((quarter_turn ^^ nat (a div 90)) (view arr [None, None, Some s])))
                   [0..<Z] @
               [Summary Z],
               Inr dir) \<and>
            distinct (map (\<lambda>s. join dir (stem @ ''_z'' @ zfill 3 (str_nat (s + 1)) @ ''.png''))
                        [0..<Z]) \<and>
            (\<forall>s. basename (join dir (stem @ ''_z'' @ zfill 3 (str_nat (s + 1)) @ ''.png'')) =
                   stem @ ''_z'' @ zfill 3 (str_nat (s + 1)) @ ''.png'')) \<and>
         (shape arr = [X, Y, Z, W] \<longrightarrow>
            convert_nii_to_png env p od a =
              ([Makedirs dir, Load p] @
               concat (map (\<lambda>v.
                 map (\<lambda>s. Imsave
                        (join dir (stem @ ''_vol'' @ str_nat (v + 1) @ ''_z'' @
                                   zfill 3 (str_nat (s + 1)) @ ''.png''))
                        ((quarter_turn ^^ nat (a div 90)) (view arr [None, None, Some s, Some v])))
                     [0..<Z]) [0..<W]) @
               [Summary (Z * W)],
               Inr dir) \<and>
            distinct (concat (map (\<lambda>v.
                 map (\<lambda>s. join dir (stem @ ''_vol'' @ str_nat (v + 1) @ ''_z'' @
                                   zfill 3 (str_nat (s + 1)) @ ''.png''))
                     [0..<Z]) [0..<W])) \<and>
            (\<forall>v s. basename (join dir (stem @ ''_vol'' @ str_nat (v + 1) @ ''_z'' @
                                   zfill 3 (str_nat (s + 1)) @ ''.png'')) =
                   stem @ ''_vol'' @ str_nat (v + 1) @ ''_z'' @ zfill 3 (str_nat (s + 1)) @ ''.png''))"
proof (intro conjI impI allI)
  have ns: "CHR ''/'' \<notin> set stem" unfolding stem by (rule slash_notin_stem)
  let ?st0 = "\<lparr>data = None, slice_counter = 0, log = [Makedirs dir, Load p]\<rparr> :: 'a loop_state"
  {
    assume sh: "shape arr = [X, Y, Z]"
    obtain st' where st': "slices3 env dir stem a arr [0..<Z] ?st0 = (st', None)"
        "log st' = log ?st0 @
             map (\<lambda>s. Imsave (name3 dir stem s)
                    ((quarter_turn ^^ nat (a div 90)) (view arr [None, None, Some s]))) [0..<Z]"
        "slice_counter st' = slice_counter ?st0 + length [0..<Z]"
      using slices3_ok [OF ang sh sv, of "[0..<Z]" dir stem ?st0] by auto
    have "convert_nii_to_png env p od a = (log st' @ [Summary (slice_counter st')], Inr dir)"
      using st'(1) mk ex suf
      by (simp add: convert_nii_to_png_def ld fd sh dir [symmetric] stem [symmetric] Let_def)
    then show "convert_nii_to_png env p od a =
              ([Makedirs dir, Load p] @
               map (\<lambda>s. Imsave (join dir (stem @ ''_z'' @ zfill 3 (str_nat (s + 1)) @ ''.png''))
                      ((quarter_turn ^^ nat (a div 90)) (view arr [None, None, Some s])))
                   [0..<Z] @
               [Summary Z],
               Inr dir)"
      using st'(2,3) by (simp add: name3_def)
  }
  {
    assume sh: "shape arr = [X, Y, Z, W]"
    obtain st' where st': "volumes4 env dir stem a arr Z [0..<W] ?st0 = (st', None)"
        "log st' = log ?st0 @
             concat (map (\<lambda>v. map (\<lambda>s. Imsave (name4 dir stem v s)
                    ((quarter_turn ^^ nat (a div 90)) (view arr [None, None, Some s, Some v])))
                    [0..<Z]) [0..<W])"
        "slice_counter st' = slice_counter ?st0 + Z * length [0..<W]"
      using volumes4_ok [OF ang sh sv, of "[0..<W]" dir stem ?st0] by auto
    have "convert_nii_to_png env p od a = (log st' @ [Summary (slice_counter st')], Inr dir)"
      using st'(1) mk ex suf
      by (simp add: convert_nii_to_png_def ld fd sh dir [symmetric] stem [symmetric] Let_def)
    then show "convert_nii_to_png env p od a =
              ([Makedirs dir, Load p] @
               concat (map (\<lambda>v.
                 map (\<lambda>s. Imsave
                        (join dir (stem @ ''_vol'' @ str_nat (v + 1) @ ''_z'' @
                                   zfill 3 (str_nat (s + 1)) @ ''.png''))
                        ((quarter_turn ^^ nat (a div 90)) (view arr [None, None, Some s, Some v])))
                     [0..<Z]) [0..<W]) @
               [Summary (Z * W)],
               Inr dir)"
      using st'(2,3) by (simp add: name4_def)
  }
  show "distinct (map (\<lambda>s. join dir (stem @ ''_z'' @ zfill 3 (str_nat (s + 1)) @ ''.png'')) [0..<Z])"
    using distinct_name3 [OF ns, of dir Z] by (simp add: name3_def [abs_def])
  show "distinct (concat (map (\<lambda>v.
                 map (\<lambda>s. join dir (stem @ ''_vol'' @ str_nat (v + 1) @ ''_z'' @
                                   zfill 3 (str_nat (s + 1)) @ ''.png''))
                     [0..<Z]) [0..<W]))"
    using distinct_name4 [OF ns, of dir Z W] by (simp add: name4_def [abs_def])
  show "basename (join dir (stem @ ''_z'' @ zfill 3 (str_nat (s + 1)) @ ''.png'')) =
          stem @ ''_z'' @ zfill 3 (str_nat (s + 1)) @ ''.png''" for s
    using basename_name3 [OF ns, of dir s] by (simp add: name3_def)
  show "basename (join dir (stem @ ''_vol'' @ str_nat (v + 1) @ ''_z'' @
                                   zfill 3 (str_nat (s + 1)) @ ''.png'')) =
          stem @ ''_vol'' @ str_nat (v + 1) @ ''_z'' @ zfill 3 (str_nat (s + 1)) @ ''.png''" for v s
    using basename_name4 [OF ns, of dir v s] by (simp add: name4_def)
qed

lemma str_nat_small:
  "str_nat (Suc 0) = ''1''" "str_nat (Suc (Suc 0)) = ''2''" "str_nat (Suc (Suc (Suc 0))) = ''3''"
  by code_simp+

theorem batch_writes_every_plane_witness:
  "written (fst (convert_nii_to_png benv0 ''/data/scan.nii'' None 90)) =
     [''/data/scan/scan_z001.png'', ''/data/scan/scan_z002.png'', ''/data/scan/scan_z003.png''] \<and>
   snd (convert_nii_to_png benv0 ''/data/scan.nii'' None 90) = Inr ''/data/scan'' \<and>
   written (fst (convert_nii_to_png benv0 ''/data/scan4.nii.gz'' (Some ''/out'') 180)) =
     [''/out/scan4/scan4_vol1_z001.png'', ''/out/scan4/scan4_vol1_z002.png'',
      ''/out/scan4/scan4_vol2_z001.png'', ''/out/scan4/scan4_vol2_z002.png''] \<and>
   snd (convert_nii_to_png benv0 ''/data/scan4.nii.gz'' (Some ''/out'') 180) = Inr ''/out/scan4''"
proof -
  have ex3: "path_exists benv0 ''/data/scan.nii''" by (simp add: benv0_def)
  have suf3: "endswith ''/data/scan.nii'' ''.nii'' \<or> endswith ''/data/scan.nii'' ''.nii.gz''"
    by (simp add: endswith_def)
  have dir3: "''/data/scan'' = output_dir_of benv0 ''/data/scan.nii'' None"
    by (simp add: output_dir_of_def benv0_def basename_def dirname_def join_def split_dot_first_def)
  have stem3: "''scan'' = split_dot_first (basename ''/data/scan.nii'')"
    by (simp add: basename_def split_dot_first_def)
  have mk3: "makedirs benv0 ''/data/scan'' = None" by (simp add: benv0_def)
  have ld3: "nibabel_load benv0 ''/data/scan.nii'' = Inr img3" by (simp add: benv0_def)
  have fd3: "get_fdata img3 = Inr vol3" by (simp add: img3_def)
  have ang3: "(90::int) = 90 \<or> (90::int) = 180 \<or> (90::int) = 270" by simp
  have sv: "\<forall>n d. imsave benv0 n d = None" by (simp add: benv0_def)
  have sh3: "shape vol3 = [2, 2, 3]" by (simp add: vol3_def)
  have ex4: "path_exists benv0 ''/data/scan4.nii.gz''" by (simp add: benv0_def)
  have suf4: "endswith ''/data/scan4.nii.gz'' ''.nii'' \<or> endswith ''/data/scan4.nii.gz'' ''.nii.gz''"
    by (simp add: endswith_def)
  have dir4: "''/out/scan4'' = output_dir_of benv0 ''/data/scan4.nii.gz'' (Some ''/out'')"
    by (simp add: output_dir_of_def benv0_def basename_def join_def split_dot_first_def)
  have stem4: "''scan4'' = split_dot_first (basename ''/data/scan4.nii.gz'')"
    by (simp add: basename_def split_dot_first_def)
  have mk4: "makedirs benv0 ''/out/scan4'' = None" by (simp add: benv0_def)
  have ld4: "nibabel_load benv0 ''/data/scan4.nii.gz'' = Inr img4" by (simp add: benv0_def)
  have fd4: "get_fdata img4 = Inr vol4" by (simp add: img4_def)
  have ang4: "(180::int) = 90 \<or> (180::int) = 180 \<or> (180::int) = 270" by simp
  have sh4: "shape vol4 = [2, 2, 2, 2]" by (simp add: vol4_def)
  have u3: "[0..<3] = [0, 1, 2]" and u2: "[0..<2] = [0, 1]" by (simp_all add: upt_rec)
  from batch_writes_every_plane [OF ex3 suf3 dir3 stem3 mk3 ld3 fd3 ang3 sv, of 2 2 3] sh3
  have c3: "convert_nii_to_png benv0 ''/data/scan.nii'' None 90 =
              ([Makedirs ''/data/scan'', Load ''/data/scan.nii''] @
               map (\<lambda>s. Imsave (join ''/data/scan'' (''scan'' @ ''_z'' @ zfill 3 (str_nat (s + 1)) @ ''.png''))
                      ((quarter_turn ^^ nat (90 div 90)) (view vol3 [None, None, Some s])))
                   [0..<3] @
               [Summary 3],
               Inr ''/data/scan'')"
    by blast
  from batch_writes_every_plane [OF ex4 suf4 dir4 stem4 mk4 ld4 fd4 ang4 sv, of 2 2 2 2] sh4
  have c4: "convert_nii_to_png benv0 ''/data/scan4.nii.gz'' (Some ''/out'') 180 =
              ([Makedirs ''/out/scan4'', Load ''/data/scan4.nii.gz''] @
               concat (map (\<lambda>v.
                 map (\<lambda>s. Imsave
                        (join ''/out/scan4'' (''scan4'' @ ''_vol'' @ str_nat (v + 1) @ ''_z'' @
                                   zfill 3 (str_nat (s + 1)) @ ''.png''))
                        ((quarter_turn ^^ nat (180 div 90)) (view vol4 [None, None, Some s, Some v])))
                     [0..<2]) [0..<2]) @
               [Summary (2 * 2)],
               Inr ''/out/scan4'')"
    by blast
  show ?thesis
    unfolding c3 c4 u3 u2
    by (simp add: written_def join_def zfill_def str_nat_small eval_nat_numeral)
qed

text \<open>
  The converter itself does not check the angle. With another angle the chain of
  \<open>if\<close>/\<open>elif\<close> assigns nothing, and the first plane raises \<open>UnboundLocalError\<close>
  when \<open>data\<close> is read, after the directory was created; a volume without slices is
  converted without any error.
\<close>

lemma batch_other_angle_unbound:
  assumes ex: "path_exists env p"
      and suf: "endswith p ''.nii'' \<or> endswith p ''.nii.gz''"
      and mk: "makedirs env (output_dir_of env p od) = None"
      and ld: "nibabel_load env p = Inr img"
      and fd: "get_fdata img = Inr arr"
      and ang: "a \<noteq> 90" "a \<noteq> 180" "a \<noteq> 270"
      and sh: "shape arr = [X, Y, Z]" "0 < Z"
  shows "convert_nii_to_png env p od a =
           ([Makedirs (output_dir_of env p od), Load p],
            Inl (Exn UnboundLocalError
              ''cannot access local variable data where it is not associated with a value''))"
proof -
  have u: "[0..<Z] = 0 # [1..<Z]" using sh(2) by (simp add: upt_conv_Cons)
  have ps: "plane_step env a arr ks name \<lparr>data = None, slice_counter = 0, log = l\<rparr> =
              (\<lparr>data = None, slice_counter = 0, log = l\<rparr>,
               Some (Exn UnboundLocalError
                 ''cannot access local variable data where it is not associated with a value''))"
    for ks name l
    using ang by (simp add: plane_step_def assign_data_def)
  show ?thesis
    using ex suf mk by (simp add: convert_nii_to_png_def ld fd sh(1) u ps Let_def)
qed

lemma batch_other_angle_no_plane:
  assumes ex: "path_exists env p"
      and suf: "endswith p ''.nii'' \<or> endswith p ''.nii.gz''"
      and mk: "makedirs env (output_dir_of env p od) = None"
      and ld: "nibabel_load env p = Inr img"
      and fd: "get_fdata img = Inr arr"
      and sh: "shape arr = [X, Y, 0]"
  shows "convert_nii_to_png env p od a =
           ([Makedirs (output_dir_of env p od), Load p, Summary 0], Inr (output_dir_of env p od))"
  using ex suf mk by (simp add: convert_nii_to_png_def ld fd sh Let_def)

end
